theory Spec2Isabelle
  imports Main
begin

section \<open>Strings\<close>

text \<open>
  The request text handed to the parser is the result of \<^verbatim>\<open>atob\<close>, a string whose code
  units all lie in 0..255; method and path are pieces of it.  Such a string is a
  \<^typ>\<open>string\<close>: one \<^typ>\<open>char\<close> per code unit.  Session ids, session names and the
  text of the custom naming function are only compared, trimmed and passed on, and are
  strings of the same type.
\<close>

definition LF :: char where
  "LF = CHR 0x0A"

definition CR :: char where
  "CR = CHR 0x0D"

text \<open>
  The characters of the class \<^verbatim>\<open>\s\<close>, which are also the ones \<^verbatim>\<open>trim()\<close> removes, below
  code 256: tab, line feed, vertical tab, form feed, carriage return, space, no-break space.
\<close>

definition isWhitespace :: "char \<Rightarrow> bool" where
  "isWhitespace c = (of_char c \<in> {9, 10, 11, 12, 13, 32, 160 :: nat})"

text \<open>The characters that \<^verbatim>\<open>.\<close> does not match in a regular expression without the s flag.\<close>

definition isLineTerminator :: "char \<Rightarrow> bool" where
  "isLineTerminator c = (c = LF \<or> c = CR)"

definition trim :: "string \<Rightarrow> string" where
  "trim s = rev (dropWhile isWhitespace (rev (dropWhile isWhitespace s)))"

text \<open>
  \<^verbatim>\<open>toLowerCase()\<close> below code 256: A-Z and the accented capitals 0xC0-0xDE (0xD7, the
  multiplication sign, apart) move up by 32, every other character stays.
\<close>

definition toLowerCaseChar :: "char \<Rightarrow> char" where
  "toLowerCaseChar c =
     (let n = of_char c :: nat
      in if (65 \<le> n \<and> n \<le> 90) \<or> (192 \<le> n \<and> n \<le> 222 \<and> n \<noteq> 215)
         then char_of (n + 32) else c)"

definition toLowerCase :: "string \<Rightarrow> string" where
  "toLowerCase s = map toLowerCaseChar s"

definition startsWith :: "string \<Rightarrow> string \<Rightarrow> bool" where
  "startsWith s p = (take (length p) s = p)"

text \<open>\<^verbatim>\<open>s.substring(0, n)\<close> for an integer n: a negative n counts as 0.\<close>

definition substring0 :: "string \<Rightarrow> int \<Rightarrow> string" where
  "substring0 s n = take (nat n) s"

text \<open>\<^verbatim>\<open>s.split('\n')\<close>: never empty, one more piece than there are line feeds.\<close>

fun splitLines :: "string \<Rightarrow> string list" where
  "splitLines [] = [[]]"
| "splitLines (c # cs) =
     (if c = LF then [] # splitLines cs
      else (case splitLines cs of [] \<Rightarrow> [[c]] | t # ts \<Rightarrow> (c # t) # ts))"

text \<open>
  \<^verbatim>\<open>s.split(/\s+/)\<close>: a run of whitespace separates two pieces; a run at the start or at the
  end of the string leaves an empty piece there.
\<close>

fun splitWhitespace :: "string \<Rightarrow> string list" where
  "splitWhitespace [] = [[]]"
| "splitWhitespace (c # cs) =
     (if isWhitespace c
      then (if cs \<noteq> [] \<and> isWhitespace (hd cs) then splitWhitespace cs
            else [] # splitWhitespace cs)
      else (case splitWhitespace cs of [] \<Rightarrow> [[c]] | t # ts \<Rightarrow> (c # t) # ts))"

text \<open>\<^verbatim>\<open>raw.replace(/\r\n/g, '\n')\<close> and \<^verbatim>\<open>.replace(/\r/g, '\n')\<close>.\<close>

fun replaceCRLF :: "string \<Rightarrow> string" where
  "replaceCRLF (a # b # cs) =
     (if a = CR \<and> b = LF then LF # replaceCRLF cs else a # replaceCRLF (b # cs))"
| "replaceCRLF cs = cs"

definition replaceCR :: "string \<Rightarrow> string" where
  "replaceCR s = map (\<lambda>c. if c = CR then LF else c) s"

section \<open>Name generator: the default algorithm\<close>

text \<open>
  \<^verbatim>\<open>path.replace(/[?#].*$/, '')\<close>: the match starts at the first \<^verbatim>\<open>?\<close> or \<^verbatim>\<open>#\<close> from which
  \<^verbatim>\<open>.*\<close> reaches the end of the string, that is, with no line terminator behind it; the
  match is removed, and a string with no match is returned as it is.
\<close>

fun stripQuery :: "string \<Rightarrow> string" where
  "stripQuery [] = []"
| "stripQuery (c # cs) =
     (if (c = CHR ''?'' \<or> c = CHR ''#'') \<and> \<not> list_ex isLineTerminator cs
      then [] else c # stripQuery cs)"

text \<open>The characters the class \<^verbatim>\<open>[^a-zA-Z0-9\/\-\_\.]\<close> leaves in place.\<close>

definition isNameChar :: "char \<Rightarrow> bool" where
  "isNameChar c =
     (let n = of_char c :: nat
      in (97 \<le> n \<and> n \<le> 122) \<or> (65 \<le> n \<and> n \<le> 90) \<or> (48 \<le> n \<and> n \<le> 57)
         \<or> c = CHR ''/'' \<or> c = CHR ''-'' \<or> c = CHR ''_'' \<or> c = CHR ''.'')"

definition cleanPath :: "string \<Rightarrow> string" where
  "cleanPath p = filter isNameChar (stripQuery p)"

definition maxLength :: nat where
  "maxLength = 30"

text \<open>The part of \<^verbatim>\<open>generateTabName\<close> after the try block.\<close>

definition defaultTabName :: "string \<Rightarrow> string \<Rightarrow> string" where
  "defaultTabName m p =
     (let tabName = m @ '' '' @ cleanPath p
      in if length tabName > maxLength
         then (let truncated =
                     substring0 (cleanPath p) (int maxLength - int (length m) - 4) @ ''...''
               in m @ '' '' @ truncated)
         else tabName)"

section \<open>Request parser\<close>

record ParsedRequest =
  "method" :: string
  path :: string
  host :: string

definition normalizeLineBreaks :: "string \<Rightarrow> string" where
  "normalizeLineBreaks raw = replaceCR (replaceCRLF raw)"

text \<open>The first loop of \<^verbatim>\<open>parseRawRequest\<close>: the first line that is not blank, trimmed.\<close>

fun findRequestLine :: "string list \<Rightarrow> string" where
  "findRequestLine [] = []"
| "findRequestLine (line # rest) =
     (if trim line \<noteq> [] then trim line else findRequestLine rest)"

text \<open>The second loop: the Host header, \<^verbatim>\<open>''\<close> when no line has one.\<close>

fun findHost :: "string list \<Rightarrow> string" where
  "findHost [] = []"
| "findHost (line # rest) =
     (let trimmedLine = trim line
      in if startsWith (toLowerCase trimmedLine) ''host:''
         then trim (drop 5 trimmedLine) else findHost rest)"

text \<open>\<^verbatim>\<open>null\<close> is \<open>None\<close>.  No step inside the try block raises, so the catch has no branch.\<close>

definition parseRawRequest :: "string \<Rightarrow> ParsedRequest option" where
  "parseRawRequest raw =
     (if raw = [] then None
      else
        (let lines = splitLines (normalizeLineBreaks raw);
             requestLine = findRequestLine lines
         in if lines = [] then None
            else if requestLine = [] then None
            else
              (case splitWhitespace requestLine of
                 m # p # _ \<Rightarrow>
                   (let h = findHost lines
                    in if m = [] \<or> p = [] then None
                       else Some \<lparr>method = m, path = p, host = h\<rparr>)
               | _ \<Rightarrow> None)))"

section \<open>Activity log and plugin state\<close>

text \<open>
  One constructor for each message text the code builds; the leading pictograph of a
  message and the time stamp \<^verbatim>\<open>addLog\<close> puts in front of it are left out.
\<close>

datatype message =
    SdkNotAvailable
  | CheckingSessions
  | NoSessionsFound
  | SessionStats nat nat nat
  | NoNewSessions
  | ProcessingSession string
  | NoDetailsFor string
  | CannotParse string
  | AlreadyCorrectlyNamed string
  | RenamedTo string string
  | RequestLocation string string string
  | SessionError string string
  | SavedAsKnown nat
  | SessionsRenamed nat
  | CycleError string
  | CustomFunctionError string
  | UsingDefaultFunction
  | StorageSessionsCleared

record PluginStorage =
  knownSessions :: "string list"
  customNamingFunction :: string
  pollingInterval :: nat

text \<open>
  The reactive variables of the component, the object kept in the host's storage
  (\<open>None\<close> when the host holds nothing usable), the number of calls of
  \<^verbatim>\<open>sdk.storage.get\<close> and of \<^verbatim>\<open>sdk.storage.set\<close> made so far and, as \<open>renameCalls\<close>, the
  calls of \<^verbatim>\<open>sdk.replay.renameSession\<close> the host has received, oldest first.
\<close>

record state =
  logsEnabled :: bool
  activityLogs :: "message list"
  namingFunction :: string
  sessionsCount :: nat
  knownCount :: nat
  newCount :: nat
  stored :: "PluginStorage option"
  storageReads :: nat
  storageWrites :: nat
  renameCalls :: "(string \<times> string) list"

definition addLog :: "message \<Rightarrow> state \<Rightarrow> state" where
  "addLog msg s =
     (if \<not> logsEnabled s then s
      else (let logs = msg # activityLogs s
            in s\<lparr>activityLogs := (if length logs > 50 then take 50 logs else logs)\<rparr>))"

definition updateCounts :: "nat \<Rightarrow> nat \<Rightarrow> nat \<Rightarrow> state \<Rightarrow> state" where
  "updateCounts totalValue knownValue newCountValue s =
     s\<lparr>sessionsCount := totalValue, knownCount := knownValue, newCount := newCountValue\<rparr>"

section \<open>The host and the browser\<close>

record Session =
  session_id :: string
  session_name :: string

text \<open>Result of \<^verbatim>\<open>sdk.replay.getSessions()\<close>: it raises, or returns null or a list.\<close>

datatype listing = ListingThrows string | ListingNull | Listing "Session list"

text \<open>
  What \<^verbatim>\<open>localStorage\<close> holds under \<^verbatim>\<open>CAIDO_AUTHENTICATION\<close>: text that \<^verbatim>\<open>JSON.parse\<close> rejects
  or that has no readable \<^verbatim>\<open>accessToken\<close> property, an object without a token, or a token.
\<close>

datatype auth = AuthUnreadable | TokenMissing | AccessToken string

text \<open>
  A base64 text, by what \<^verbatim>\<open>atob\<close> makes of it: the empty text, a text that decodes to
  the given string, or a text \<^verbatim>\<open>atob\<close> rejects.
\<close>

datatype payload = EmptyPayload | Encoded string | Malformed

definition btoa :: "string \<Rightarrow> payload" where
  "btoa text = (if text = [] then EmptyPayload else Encoded text)"

fun atob :: "payload \<Rightarrow> string option" where
  "atob EmptyPayload = Some []"
| "atob (Encoded text) = Some text"
| "atob Malformed = None"

text \<open>
  The \<^verbatim>\<open>activeEntry\<close> of the GraphQL answer: \<^verbatim>\<open>entry.session?.name\<close> and \<^verbatim>\<open>entry.raw\<close>, each
  \<open>None\<close> when it is missing.
\<close>

record Entry =
  entry_session_name :: "string option"
  entry_raw :: "payload option"

text \<open>
  The POST to \<^verbatim>\<open>/graphql\<close>: \<^verbatim>\<open>fetch\<close> raises; the response is not ok; reading the body as
  JSON or reaching into it raises; or the body is read and
  \<^verbatim>\<open>data.data?.replaySession?.activeEntry\<close> is the given entry (\<open>None\<close>: undefined or null).
\<close>

datatype fetch_result = FetchThrows | ResponseNotOk | BodyUnreadable | Body "Entry option"

text \<open>
  What calling \<^verbatim>\<open>new Function('method', 'path', 'host', source)\<close> on three strings does:
  building or running it raises an Error, raises null or undefined, raises another value,
  or it returns a string or a value that is not a string.  A raised Error and a raised
  other value come with the text that \<^verbatim>\<open>error.message\<close> gives inside a template literal
  (\<^verbatim>\<open>undefined\<close> for a value without the property), or with \<open>None\<close> when reading the
  property or converting it to a string raises (a Symbol, a getter or a \<^verbatim>\<open>toString\<close> that
  raises).
\<close>

datatype thrown = ErrorObject "string option" | Nullish | OtherValue "string option"

datatype outcome = Throws thrown | ReturnsString string | ReturnsOther

record env =
  sdkInstance :: bool
  getSessions :: listing
  authentication :: auth
  graphql :: "string \<Rightarrow> fetch_result"
  renameSession :: "string \<Rightarrow> string \<Rightarrow> string option"
  userFunction :: "string \<Rightarrow> string \<Rightarrow> string \<Rightarrow> string \<Rightarrow> outcome"
  getFails :: "nat \<Rightarrow> bool"
  setFails :: "nat \<Rightarrow> bool"

text \<open>
  \<open>renameSession e i n\<close> is \<open>None\<close> when the host accepts the call and \<open>Some err\<close> when the
  call raises \<open>err\<close>; an error raised by the host is given as the text it renders to.  \<open>getFails e k\<close> says that the call of \<^verbatim>\<open>sdk.storage.get\<close> made after
  \<open>k\<close> earlier ones raises, \<open>setFails e k\<close> the same for \<^verbatim>\<open>sdk.storage.set\<close>.  The 100 ms
  pause after a rename is not part of the model.
\<close>

section \<open>Known-set store\<close>

definition defaultStorage :: PluginStorage where
  "defaultStorage = \<lparr>knownSessions = [], customNamingFunction = [], pollingInterval = 3000\<rparr>"

text \<open>
  \<^verbatim>\<open>getStorage\<close>: a read that raises ends in the catch and gives the defaults, as does a
  stored value that is not usable.
\<close>

definition getStorage :: "env \<Rightarrow> state \<Rightarrow> PluginStorage \<times> state" where
  "getStorage e s =
     (if \<not> sdkInstance e then (defaultStorage, s)
      else
        (let s' = s\<lparr>storageReads := storageReads s + 1\<rparr>
         in if getFails e (storageReads s) then (defaultStorage, s')
            else (case stored s of Some st \<Rightarrow> (st, s') | None \<Rightarrow> (defaultStorage, s'))))"

text \<open>\<^verbatim>\<open>saveStorage\<close>: a write that raises ends in the catch and leaves the store as it was.\<close>

definition saveStorage :: "env \<Rightarrow> PluginStorage \<Rightarrow> state \<Rightarrow> state" where
  "saveStorage e st s =
     (if \<not> sdkInstance e then s
      else
        (let s' = s\<lparr>storageWrites := storageWrites s + 1\<rparr>
         in if setFails e (storageWrites s) then s' else s'\<lparr>stored := Some st\<rparr>))"

text \<open>\<^verbatim>\<open>new Set(xs)\<close> and \<^verbatim>\<open>Array.from\<close> of it: each element once, in order of first occurrence.\<close>

definition newSet :: "string list \<Rightarrow> string list" where
  "newSet xs = rev (remdups (rev xs))"

definition getKnownSessions :: "env \<Rightarrow> state \<Rightarrow> string list \<times> state" where
  "getKnownSessions e s =
     (case getStorage e s of (st, s') \<Rightarrow> (newSet (knownSessions st), s'))"

definition saveKnownSessions :: "env \<Rightarrow> string list \<Rightarrow> state \<Rightarrow> state" where
  "saveKnownSessions e sessions s =
     (case getStorage e s of (st, s') \<Rightarrow> saveStorage e (st\<lparr>knownSessions := sessions\<rparr>) s')"


section \<open>Name generator\<close>

text \<open>
  The message the catch block of \<^verbatim>\<open>packages/frontend/src/index.ts\<close> logs,
  \<^verbatim>\<open>error instanceof Error ? error.message : 'Unknown error'\<close> inside a template literal;
  \<open>None\<close> when building it raises.
\<close>

fun errorMessage :: "thrown \<Rightarrow> string option" where
  "errorMessage (ErrorObject msg) = msg"
| "errorMessage Nullish = Some ''Unknown error''"
| "errorMessage (OtherValue msg) = Some ''Unknown error''"

text \<open>
  The message the catch block of the second source file logs, \<^verbatim>\<open>error.message\<close> inside a
  template literal with no test before it: reading the property of null or undefined
  raises a TypeError.
\<close>

fun errorMessage_part000 :: "thrown \<Rightarrow> string option" where
  "errorMessage_part000 (ErrorObject msg) = msg"
| "errorMessage_part000 Nullish = None"
| "errorMessage_part000 (OtherValue msg) = msg"

text \<open>
  \<^verbatim>\<open>generateTabName\<close> of \<^verbatim>\<open>packages/frontend/src/index.ts\<close>.  The optional \<^verbatim>\<open>host\<close> is an
  option, and \<^verbatim>\<open>host || ''\<close> is the empty string for \<open>None\<close> and for the empty string.
  The result is \<open>None\<close> when the function raises: the catch block builds its message
  before it calls \<^verbatim>\<open>addLog\<close>, and a raise there leaves the function with nothing logged.
\<close>

definition generateTabName ::
  "env \<Rightarrow> string \<Rightarrow> string \<Rightarrow> string option \<Rightarrow> state \<Rightarrow> (string \<times> state) option" where
  "generateTabName e m p h s =
     (let customFunction = namingFunction s
      in if trim customFunction \<noteq> []
         then (case userFunction e customFunction m p (case h of None \<Rightarrow> [] | Some x \<Rightarrow> x) of
                 ReturnsString result \<Rightarrow>
                   if trim result \<noteq> [] then Some (trim result, s) else Some (defaultTabName m p, s)
               | ReturnsOther \<Rightarrow> Some (defaultTabName m p, s)
               | Throws err \<Rightarrow>
                   (case errorMessage err of
                      None \<Rightarrow> None
                    | Some msg \<Rightarrow>
                        Some (defaultTabName m p,
                              addLog UsingDefaultFunction (addLog (CustomFunctionError msg) s))))
         else Some (defaultTabName m p, s))"

text \<open>
  \<^verbatim>\<open>generateTabName\<close> of the second source file.  That file reads the custom source from
  \<^verbatim>\<open>localStorage\<close>; here it is the same field of the state.
\<close>

definition generateTabName_part000 ::
  "env \<Rightarrow> string \<Rightarrow> string \<Rightarrow> string option \<Rightarrow> state \<Rightarrow> (string \<times> state) option" where
  "generateTabName_part000 e m p h s =
     (let customFunction = namingFunction s
      in if trim customFunction \<noteq> []
         then (case userFunction e customFunction m p (case h of None \<Rightarrow> [] | Some x \<Rightarrow> x) of
                 ReturnsString result \<Rightarrow>
                   if trim result \<noteq> [] then Some (trim result, s) else Some (defaultTabName m p, s)
               | ReturnsOther \<Rightarrow> Some (defaultTabName m p, s)
               | Throws err \<Rightarrow>
                   (case errorMessage_part000 err of
                      None \<Rightarrow> None
                    | Some msg \<Rightarrow>
                        Some (defaultTabName m p,
                              addLog UsingDefaultFunction (addLog (CustomFunctionError msg) s))))
         else Some (defaultTabName m p, s))"

section \<open>Detail fetcher\<close>

definition fallbackEntry :: "string \<Rightarrow> Entry" where
  "fallbackEntry sessionId =
     \<lparr>entry_session_name = Some (''Session '' @ sessionId),
      entry_raw = Some (btoa (''GET /api/fallback HTTP/1.1'' @ [LF] @ ''Host: localhost'' @ [LF, LF]))\<rparr>"

text \<open>
  \<^verbatim>\<open>getSessionDetails\<close> of \<^verbatim>\<open>packages/frontend/src/index.ts\<close>; \<open>None\<close> is null or undefined.
  The outer catch turns unreadable authentication data and a missing token into null;
  the inner catch, and a response that is not ok, lead to the fallback entry.
\<close>

definition getSessionDetails :: "env \<Rightarrow> string \<Rightarrow> Entry option" where
  "getSessionDetails e sessionId =
     (if \<not> sdkInstance e then None
      else (case authentication e of
              AuthUnreadable \<Rightarrow> None
            | TokenMissing \<Rightarrow> None
            | AccessToken accessToken \<Rightarrow>
                (case graphql e sessionId of
                   Body entry \<Rightarrow> entry
                 | FetchThrows \<Rightarrow> Some (fallbackEntry sessionId)
                 | ResponseNotOk \<Rightarrow> Some (fallbackEntry sessionId)
                 | BodyUnreadable \<Rightarrow> Some (fallbackEntry sessionId))))"

section \<open>Sync cycle\<close>

text \<open>\<^verbatim>\<open>entry.session?.name || session.name\<close>.\<close>

definition currentName :: "Entry \<Rightarrow> Session \<Rightarrow> string" where
  "currentName entry session =
     (case entry_session_name entry of
        None \<Rightarrow> session_name session
      | Some n \<Rightarrow> if n = [] then session_name session else n)"

text \<open>
  The body of the loop over the new sessions, with the count of renamed sessions beside
  the state.  A raise inside it (by \<^verbatim>\<open>atob\<close>, by the generator or by the rename call) ends
  in the catch of the loop body, which logs it.
\<close>

definition processSession :: "env \<Rightarrow> Session \<Rightarrow> state \<times> nat \<Rightarrow> state \<times> nat" where
  "processSession e session acc =
     (case acc of (s0, renamedCount) \<Rightarrow>
        (let sid = session_id session;
             s1 = addLog (ProcessingSession sid) s0
         in case getSessionDetails e sid of
              None \<Rightarrow> (addLog (NoDetailsFor sid) s1, renamedCount)
            | Some entry \<Rightarrow>
                (case entry_raw entry of
                   None \<Rightarrow> (addLog (NoDetailsFor sid) s1, renamedCount)
                 | Some EmptyPayload \<Rightarrow> (addLog (NoDetailsFor sid) s1, renamedCount)
                 | Some data \<Rightarrow>
                     (case atob data of
                        None \<Rightarrow> (addLog (SessionError sid ''InvalidCharacterError'') s1, renamedCount)
                      | Some text \<Rightarrow>
                          (case parseRawRequest text of
                             None \<Rightarrow> (addLog (CannotParse sid) s1, renamedCount)
                           | Some requestInfo \<Rightarrow>
                               (case generateTabName e (method requestInfo) (path requestInfo) None s1 of
                                  None \<Rightarrow> (addLog (SessionError sid ''TypeError'') s1, renamedCount)
                                | Some (newName, s2) \<Rightarrow>
                                    if currentName entry session = newName
                                    then (addLog (AlreadyCorrectlyNamed sid) s2, renamedCount)
                                    else
                                      (let s3 = s2\<lparr>renameCalls := renameCalls s2 @ [(sid, newName)]\<rparr>
                                       in case renameSession e sid newName of
                                            Some err \<Rightarrow> (addLog (SessionError sid err) s3, renamedCount)
                                          | None \<Rightarrow>
                                              (addLog (RequestLocation (method requestInfo)
                                                         (host requestInfo) (path requestInfo))
                                                 (addLog (RenamedTo sid newName) s3),
                                               renamedCount + 1))))))))"

fun processSessions :: "env \<Rightarrow> Session list \<Rightarrow> state \<times> nat \<Rightarrow> state \<times> nat" where
  "processSessions e [] acc = acc"
| "processSessions e (session # rest) acc = processSessions e rest (processSession e session acc)"

definition checkAndRenameReplayTabs :: "env \<Rightarrow> state \<Rightarrow> state" where
  "checkAndRenameReplayTabs e s =
     (if \<not> sdkInstance e then addLog SdkNotAvailable s
      else
        (let s1 = addLog CheckingSessions s
         in case getSessions e of
              ListingThrows err \<Rightarrow> addLog (CycleError err) s1
            | ListingNull \<Rightarrow> updateCounts 0 0 0 (addLog NoSessionsFound s1)
            | Listing sessions \<Rightarrow>
                if sessions = [] then updateCounts 0 0 0 (addLog NoSessionsFound s1)
                else
                  (case getKnownSessions e s1 of
                     (known, s1') \<Rightarrow>
                       (let currentSessionIds = newSet (map session_id sessions);
                            newSessions =
                              filter (\<lambda>session. session_id session \<notin> set known) sessions;
                            s2 = updateCounts (length sessions) (length known) (length newSessions)
                                   (addLog (SessionStats (length sessions) (length known)
                                              (length newSessions)) s1')
                        in if newSessions = []
                           then saveKnownSessions e currentSessionIds (addLog NoNewSessions s2)
                           else
                             (case processSessions e newSessions (s2, 0) of
                                (s3, renamedCount) \<Rightarrow>
                                  (let s4 = addLog (SavedAsKnown (length currentSessionIds))
                                              (saveKnownSessions e currentSessionIds s3);
                                       s5 = (if renamedCount > 0
                                             then addLog (SessionsRenamed renamedCount) s4 else s4)
                                   in case getKnownSessions e s5 of
                                        (finalKnown, s6) \<Rightarrow>
                                          updateCounts (length sessions) (length finalKnown) 0 s6))))))"


section \<open>Reference definitions\<close>

text \<open>
  The specification's description of the Host header: the first line that, trimmed,
  begins with \<^verbatim>\<open>host:\<close> in any mix of upper and lower case, and of it the trimmed
  remainder behind the colon.
\<close>

definition specHostLine :: "string \<Rightarrow> bool" where
  "specHostLine line =
     (case trim line of
        a # b # c # d # e # _ \<Rightarrow>
          (a = CHR ''h'' \<or> a = CHR ''H'') \<and> (b = CHR ''o'' \<or> b = CHR ''O'')
          \<and> (c = CHR ''s'' \<or> c = CHR ''S'') \<and> (d = CHR ''t'' \<or> d = CHR ''T'') \<and> e = CHR '':''
      | _ \<Rightarrow> False)"

definition specHost :: "string list \<Rightarrow> string" where
  "specHost lines =
     (case find specHostLine lines of None \<Rightarrow> [] | Some line \<Rightarrow> trim (drop 5 (trim line)))"

text \<open>
  The specification's description of the cleaned path: everything from the first \<^verbatim>\<open>?\<close> or
  \<^verbatim>\<open>#\<close> is removed, then every character that is not a letter, a digit or one of
  \<^verbatim>\<open>/ _ . -\<close>.
\<close>

definition specNameChars :: string where
  "specNameChars = ''ABCDEFGHIJKLMNOPQRSTUVWXYZabcdefghijklmnopqrstuvwxyz0123456789/_.-''"

definition specCleanPath :: "string \<Rightarrow> string" where
  "specCleanPath p =
     filter (\<lambda>c. c \<in> set specNameChars)
       (takeWhile (\<lambda>c. c \<noteq> CHR ''?'' \<and> c \<noteq> CHR ''#'') p)"

text \<open>Inputs of the examples.\<close>

definition hostExample :: string where
  "hostExample =
     ''GET /x HTTP/1.1'' @ [CR, LF] @ ''Accept: */*'' @ [CR, LF] @ ''Host:   example.com'' @ [CR, LF]
       @ ''Connection: close'' @ [CR, LF, CR, LF]"

definition longPathExample :: string where
  "longPathExample = ''/very/long/path/that/exceeds/the/limit/xyz''"

definition longMethodExample :: string where
  "longMethodExample = ''ABCDEFGHIJKLMNOPQRSTUVWXYZA''"

definition scenarioRequest :: string where
  "scenarioRequest = ''GET /foo/bar?x=1 HTTP/1.1'' @ [LF] @ ''Host: h.test'' @ [LF, LF]"

text \<open>
  The two names the loop body compares for a session, when it gets as far as the
  comparison: the session's current name and the candidate name.
\<close>

definition comparison :: "env \<Rightarrow> state \<Rightarrow> Session \<Rightarrow> (string \<times> string) option" where
  "comparison e s session =
     (case getSessionDetails e (session_id session) of
        None \<Rightarrow> None
      | Some entry \<Rightarrow>
          (case entry_raw entry of
             None \<Rightarrow> None
           | Some d \<Rightarrow>
               (case atob d of
                  None \<Rightarrow> None
                | Some decoded \<Rightarrow>
                    (case parseRawRequest decoded of
                       None \<Rightarrow> None
                     | Some r \<Rightarrow>
                         (case generateTabName e (method r) (path r) None s of
                            None \<Rightarrow> None
                          | Some (newName, s') \<Rightarrow> Some (currentName entry session, newName))))))"


text \<open>
  The scenario of one new session \<^verbatim>\<open>a\<close>, named \<^verbatim>\<open>old\<close>, whose request is
  \<^verbatim>\<open>GET /foo/bar?x=1\<close> to \<^verbatim>\<open>h.test\<close>, with no custom naming function, nothing stored and
  a storage that answers every call.
\<close>

definition initialState :: state where
  "initialState =
     \<lparr>logsEnabled = True, activityLogs = [], namingFunction = [], sessionsCount = 0,
      knownCount = 0, newCount = 0, stored = None, storageReads = 0, storageWrites = 0,
      renameCalls = []\<rparr>"

definition scenarioListing :: "Session list" where
  "scenarioListing = [\<lparr>session_id = ''a'', session_name = ''old''\<rparr>]"

definition scenarioEntry :: "string \<Rightarrow> Entry" where
  "scenarioEntry n = \<lparr>entry_session_name = Some n, entry_raw = Some (btoa scenarioRequest)\<rparr>"

definition scenarioEnv :: env where
  "scenarioEnv =
     \<lparr>sdkInstance = True, getSessions = Listing scenarioListing,
      authentication = AccessToken ''token'',
      graphql = (\<lambda>i. Body (Some (scenarioEntry ''old''))),
      renameSession = (\<lambda>i n. None),
      userFunction = (\<lambda>src m p h. ReturnsOther),
      getFails = (\<lambda>k. False), setFails = (\<lambda>k. False)\<rparr>"

text \<open>The session already carries the name the generator gives it.\<close>

definition namedEnv :: env where
  "namedEnv = scenarioEnv\<lparr>graphql := (\<lambda>i. Body (Some (scenarioEntry ''GET /foo/bar'')))\<rparr>"




text \<open>
  Four new sessions: no active entry, a payload that is not a request, a payload that is
  not base64, and a rename call that the host rejects.
\<close>

definition failingListing :: "Session list" where
  "failingListing =
     [\<lparr>session_id = ''a'', session_name = ''one''\<rparr>, \<lparr>session_id = ''b'', session_name = ''two''\<rparr>,
      \<lparr>session_id = ''c'', session_name = ''three''\<rparr>, \<lparr>session_id = ''d'', session_name = ''four''\<rparr>]"

definition failingEnv :: env where
  "failingEnv =
     \<lparr>sdkInstance = True, getSessions = Listing failingListing,
      authentication = AccessToken ''token'',
      graphql = (\<lambda>i. if i = ''a'' then Body None
                     else if i = ''b'' then Body (Some \<lparr>entry_session_name = None, entry_raw = Some (Encoded ''garbage'')\<rparr>)
                     else if i = ''c'' then Body (Some \<lparr>entry_session_name = None, entry_raw = Some Malformed\<rparr>)
                     else Body (Some (scenarioEntry ''four''))),
      renameSession = (\<lambda>i n. Some ''rejected''),
      userFunction = (\<lambda>src m p h. ReturnsOther),
      getFails = (\<lambda>k. False), setFails = (\<lambda>k. False)\<rparr>"



text \<open>
  The GraphQL request raises for a session that the host lists under the name
  \<^verbatim>\<open>GET /api/fallback\<close>.
\<close>

definition relistedListing :: "Session list" where
  "relistedListing = [\<lparr>session_id = ''a'', session_name = ''GET /api/fallback''\<rparr>]"

definition relistedEnv :: env where
  "relistedEnv =
     scenarioEnv\<lparr>getSessions := Listing relistedListing, graphql := (\<lambda>i. FetchThrows)\<rparr>"

text \<open>
  Variants of the scenario: a custom naming function that returns its \<^verbatim>\<open>host\<close> argument; a
  GraphQL request that raises; a custom naming function that raises an Error with the
  message \<^verbatim>\<open>boom\<close>, an Error whose message is a Symbol, or null; and the log switched off.
\<close>

definition customState :: state where
  "customState = initialState\<lparr>namingFunction := ''return host;''\<rparr>"

definition echoHostEnv :: env where
  "echoHostEnv = scenarioEnv\<lparr>userFunction := (\<lambda>src m p h. ReturnsString h)\<rparr>"

definition fetchThrowsEnv :: env where
  "fetchThrowsEnv = scenarioEnv\<lparr>graphql := (\<lambda>i. FetchThrows)\<rparr>"

definition throwingEnv :: env where
  "throwingEnv = scenarioEnv\<lparr>userFunction := (\<lambda>src m p h. Throws (ErrorObject (Some ''boom'')))\<rparr>"

definition symbolThrowingEnv :: env where
  "symbolThrowingEnv = scenarioEnv\<lparr>userFunction := (\<lambda>src m p h. Throws (ErrorObject None))\<rparr>"

definition nullThrowingEnv :: env where
  "nullThrowingEnv = scenarioEnv\<lparr>userFunction := (\<lambda>src m p h. Throws Nullish)\<rparr>"

definition silentState :: state where
  "silentState = customState\<lparr>logsEnabled := False\<rparr>"

section \<open>Properties of the string functions and of the parser\<close>

lemma of_char_toLowerCaseChar:
  "of_char (toLowerCaseChar c) =
     (let n = of_char c :: nat
      in if (65 \<le> n \<and> n \<le> 90) \<or> (192 \<le> n \<and> n \<le> 222 \<and> n \<noteq> 215) then n + 32 else n)"
  by (simp add: toLowerCaseChar_def Let_def)

lemma char_eq_code: "(c = d) = (of_char c = (of_char d :: nat))"
  by simp

lemma toLowerCaseChar_host:
  "(toLowerCaseChar c = CHR ''h'') = (c = CHR ''h'' \<or> c = CHR ''H'')"
  "(toLowerCaseChar c = CHR ''o'') = (c = CHR ''o'' \<or> c = CHR ''O'')"
  "(toLowerCaseChar c = CHR ''s'') = (c = CHR ''s'' \<or> c = CHR ''S'')"
  "(toLowerCaseChar c = CHR ''t'') = (c = CHR ''t'' \<or> c = CHR ''T'')"
  "(toLowerCaseChar c = CHR '':'') = (c = CHR '':'')"
  by (auto simp add: char_eq_code [of _ "CHR ''h''"] char_eq_code [of _ "CHR ''H''"]
        char_eq_code [of _ "CHR ''o''"] char_eq_code [of _ "CHR ''O''"]
        char_eq_code [of _ "CHR ''s''"] char_eq_code [of _ "CHR ''S''"]
        char_eq_code [of _ "CHR ''t''"] char_eq_code [of _ "CHR ''T''"]
        char_eq_code [of _ "CHR '':''"] of_char_toLowerCaseChar Let_def)

lemma startsWith_host:
  "startsWith (toLowerCase t) ''host:'' =
     (case t of
        a # b # c # d # e # _ \<Rightarrow>
          (a = CHR ''h'' \<or> a = CHR ''H'') \<and> (b = CHR ''o'' \<or> b = CHR ''O'')
          \<and> (c = CHR ''s'' \<or> c = CHR ''S'') \<and> (d = CHR ''t'' \<or> d = CHR ''T'') \<and> e = CHR '':''
      | _ \<Rightarrow> False)"
  by (simp add: startsWith_def toLowerCase_def toLowerCaseChar_host split: list.splits)

lemma findHost_specHost: "findHost ls = specHost ls"
  by (induction ls) (simp_all add: specHost_def specHostLine_def startsWith_host Let_def)

lemma parseRawRequest_SomeD:
  assumes "parseRawRequest raw = Some r"
  shows "\<exists>rest. splitWhitespace (findRequestLine (splitLines (normalizeLineBreaks raw))) = method r # path r # rest
          \<and> host r = findHost (splitLines (normalizeLineBreaks raw)) \<and> method r \<noteq> [] \<and> path r \<noteq> []"
proof (cases "splitWhitespace (findRequestLine (splitLines (normalizeLineBreaks raw)))")
  case Nil
  with assms show ?thesis by (simp add: parseRawRequest_def Let_def split: if_splits)
next
  case (Cons m ps)
  note c1 = Cons
  show ?thesis
  proof (cases ps)
    case Nil
    with c1 assms show ?thesis by (simp add: parseRawRequest_def Let_def split: if_splits)
  next
    case (Cons p rest)
    with c1 assms show ?thesis by (auto simp add: parseRawRequest_def Let_def split: if_splits)
  qed
qed

lemma parseRawRequest_host:
  "parseRawRequest raw = Some r \<Longrightarrow> host r = findHost (splitLines (normalizeLineBreaks raw))"
  using parseRawRequest_SomeD by blast

lemma specHost_append:
  "\<not> list_ex specHostLine pre \<Longrightarrow> specHostLine l \<Longrightarrow> specHost (pre @ l # post) = trim (drop 5 (trim l))"
  by (induction pre) (simp_all add: specHost_def)

lemma trim_Nil_iff: "(trim s = []) = list_all isWhitespace s"
proof -
  have "(trim s = []) = (dropWhile isWhitespace (rev (dropWhile isWhitespace s)) = [])"
    by (simp add: trim_def)
  also have "\<dots> = (\<forall>c \<in> set (dropWhile isWhitespace s). isWhitespace c)"
    by (simp add: dropWhile_eq_Nil_conv)
  also have "\<dots> = (dropWhile isWhitespace s = [])"
    by (metis dropWhile_eq_Nil_conv dropWhile_idem)
  also have "\<dots> = list_all isWhitespace s"
    by (simp add: dropWhile_eq_Nil_conv list_all_iff)
  finally show ?thesis .
qed

lemma trim_no_whitespace: "\<not> list_ex isWhitespace s \<Longrightarrow> trim s = s"
proof -
  assume a: "\<not> list_ex isWhitespace s"
  have "dropWhile isWhitespace s = s"
    using a by (cases s) (simp_all)
  moreover have "dropWhile isWhitespace (rev s) = rev s"
  proof (cases "rev s")
    case Nil
    then show ?thesis by simp
  next
    case (Cons c cs)
    then have "c \<in> set s" by (metis list.set_intros(1) set_rev)
    with a have "\<not> isWhitespace c" by (auto simp add: list_ex_iff)
    with Cons show ?thesis by simp
  qed
  ultimately show ?thesis by (simp add: trim_def)
qed

lemma splitWhitespace_single: "\<not> list_ex isWhitespace s \<Longrightarrow> splitWhitespace s = [s]"
  by (induction s) simp_all

lemma splitLines_single: "LF \<notin> set s \<Longrightarrow> splitLines s = [s]"
  by (induction s) auto

lemma replaceCRLF_id: "CR \<notin> set s \<Longrightarrow> replaceCRLF s = s"
  by (induction s rule: replaceCRLF.induct) auto

lemma replaceCR_id: "CR \<notin> set s \<Longrightarrow> replaceCR s = s"
  by (induction s) (auto simp add: replaceCR_def)

lemma isWhitespace_LF_CR: "isWhitespace LF" "isWhitespace CR"
  by (simp_all add: isWhitespace_def LF_def CR_def)

lemma parse_no_whitespace:
  assumes "\<not> list_ex isWhitespace raw"
  shows "parseRawRequest raw = None"
proof (cases "raw = []")
  case True
  then show ?thesis by (simp add: parseRawRequest_def)
next
  case False
  have cr: "CR \<notin> set raw" and lf: "LF \<notin> set raw"
    using assms isWhitespace_LF_CR by (auto simp add: list_ex_iff)
  have "splitLines (normalizeLineBreaks raw) = [raw]"
    by (simp add: normalizeLineBreaks_def replaceCRLF_id replaceCR_id splitLines_single cr lf)
  then show ?thesis
    using assms False
    by (simp add: parseRawRequest_def Let_def trim_no_whitespace splitWhitespace_single)
qed

lemma set_replaceCRLF: "set (replaceCRLF s) \<subseteq> insert LF (set s)"
  by (induction s rule: replaceCRLF.induct) auto

lemma splitLines_nonempty: "splitLines s \<noteq> []"
  by (induction s) (simp_all split: list.split)

lemma splitWhitespace_nonempty: "splitWhitespace s \<noteq> []"
  by (induction s) (simp_all split: list.split)

lemma splitLines_pieces: "l \<in> set (splitLines s) \<Longrightarrow> set l \<subseteq> set s"
proof (induction s arbitrary: l)
  case Nil
  then show ?case by simp
next
  case (Cons a s)
  show ?case
  proof (cases "a = LF")
    case True
    with Cons show ?thesis by auto
  next
    case False
    obtain t ts where ts: "splitLines s = t # ts"
      using splitLines_nonempty [of s] by (cases "splitLines s") auto
    with Cons.prems False have "l = a # t \<or> l \<in> set ts" by simp
    with Cons.IH [of t] Cons.IH [of l] ts show ?thesis by auto
  qed
qed

lemma findRequestLine_blank:
  "\<forall>l \<in> set ls. list_all isWhitespace l \<Longrightarrow> findRequestLine ls = []"
  by (induction ls) (simp_all add: trim_Nil_iff)

lemma parse_all_whitespace:
  assumes "list_all isWhitespace raw"
  shows "parseRawRequest raw = None"
proof -
  have "\<forall>c \<in> set (normalizeLineBreaks raw). isWhitespace c"
    using assms set_replaceCRLF [of raw] isWhitespace_LF_CR
    by (auto simp add: normalizeLineBreaks_def replaceCR_def list_all_iff)
  then have "\<forall>l \<in> set (splitLines (normalizeLineBreaks raw)). list_all isWhitespace l"
    using splitLines_pieces by (fastforce simp add: list_all_iff)
  then have "findRequestLine (splitLines (normalizeLineBreaks raw)) = []"
    by (rule findRequestLine_blank)
  then show ?thesis by (simp add: parseRawRequest_def Let_def)
qed

lemma parse_Some_nonempty:
  "parseRawRequest raw = Some r \<Longrightarrow> method r \<noteq> [] \<and> path r \<noteq> []"
  using parseRawRequest_SomeD by blast

lemma splitWhitespace_tokens:
  "t \<in> set (splitWhitespace s) \<Longrightarrow> \<not> list_ex isWhitespace t"
proof (induction s arbitrary: t)
  case Nil
  then show ?case by simp
next
  case (Cons a s)
  show ?case
  proof (cases "isWhitespace a")
    case True
    then have "set (splitWhitespace (a # s)) \<subseteq> insert [] (set (splitWhitespace s))"
      by (cases s) auto
    with Cons.prems have "t = [] \<or> t \<in> set (splitWhitespace s)" by auto
    with Cons.IH [of t] show ?thesis by auto
  next
    case False
    obtain u us where us: "splitWhitespace s = u # us"
      using splitWhitespace_nonempty [of s] by (cases "splitWhitespace s") auto
    with Cons.prems False have "t = a # u \<or> t \<in> set us" by simp
    with Cons.IH [of u] Cons.IH [of t] us False show ?thesis by auto
  qed
qed

lemma parse_path_no_whitespace:
  "parseRawRequest raw = Some r \<Longrightarrow> \<not> list_ex isWhitespace (path r) \<and> \<not> list_ex isWhitespace (method r)"
proof -
  assume a: "parseRawRequest raw = Some r"
  then obtain rl rest where "splitWhitespace rl = method r # path r # rest"
    using parseRawRequest_SomeD by blast
  then have "method r \<in> set (splitWhitespace rl)" "path r \<in> set (splitWhitespace rl)"
    by simp_all
  then show ?thesis
    using splitWhitespace_tokens by blast
qed

lemma isNameChar_spec: "isNameChar c = (c \<in> set specNameChars)"
  apply (cases c)
  subgoal for b0 b1 b2 b3 b4 b5 b6 b7
    apply (cases b0; cases b1; cases b2; cases b3; cases b4; cases b5; cases b6; cases b7)
    apply (simp_all add: isNameChar_def specNameChars_def)
    done
  done

lemma stripQuery_takeWhile:
  "\<not> list_ex isLineTerminator p \<Longrightarrow>
     stripQuery p = takeWhile (\<lambda>c. c \<noteq> CHR ''?'' \<and> c \<noteq> CHR ''#'') p"
  by (induction p) auto

lemma cleanPath_no_terminator:
  "\<not> list_ex isLineTerminator p \<Longrightarrow> cleanPath p = specCleanPath p"
proof -
  have "isNameChar = (\<lambda>c. c \<in> set specNameChars)"
    using isNameChar_spec by blast
  then show "\<not> list_ex isLineTerminator p \<Longrightarrow> cleanPath p = specCleanPath p"
    by (simp add: cleanPath_def specCleanPath_def stripQuery_takeWhile)
qed

lemma isLineTerminator_isWhitespace: "isLineTerminator c \<Longrightarrow> isWhitespace c"
  using isWhitespace_LF_CR by (auto simp add: isLineTerminator_def)

section \<open>Properties of the log, the generator and the loop body\<close>

lemma addLog_fields:
  "stored (addLog msg s) = stored s"
  "renameCalls (addLog msg s) = renameCalls s"
  "namingFunction (addLog msg s) = namingFunction s"
  "logsEnabled (addLog msg s) = logsEnabled s"
  "storageReads (addLog msg s) = storageReads s"
  "storageWrites (addLog msg s) = storageWrites s"
  by (simp_all add: addLog_def Let_def)

lemma addLog_disabled: "\<not> logsEnabled s \<Longrightarrow> addLog msg s = s"
  by (simp add: addLog_def)

lemma addLog_enabled:
  "logsEnabled s \<Longrightarrow> activityLogs (addLog msg s) = take 50 (msg # activityLogs s)"
  by (simp add: addLog_def Let_def)

lemma addLog_twice:
  "logsEnabled s \<Longrightarrow>
     activityLogs (addLog m2 (addLog m1 s)) = take 50 (m2 # m1 # activityLogs s)"
proof -
  assume a: "logsEnabled s"
  have "take 50 (m2 # take 50 (m1 # activityLogs s)) = take 50 (m2 # m1 # activityLogs s)"
    by (simp add: take_Cons' min_def)
  then show ?thesis using a by (simp add: addLog_enabled addLog_fields)
qed

lemma updateCounts_fields:
  "stored (updateCounts a b c s) = stored s"
  "renameCalls (updateCounts a b c s) = renameCalls s"
  "namingFunction (updateCounts a b c s) = namingFunction s"
  "storageWrites (updateCounts a b c s) = storageWrites s"
  by (simp_all add: updateCounts_def)

lemma defaultTabName_nonempty: "defaultTabName m p \<noteq> []"
  by (simp add: defaultTabName_def Let_def)

lemma generateTabName_SomeD:
  assumes "generateTabName e m p h s = Some (nm, s')"
  shows "stored s' = stored s" "renameCalls s' = renameCalls s"
    "namingFunction s' = namingFunction s" "storageWrites s' = storageWrites s" "nm \<noteq> []"
  using assms
  by (auto simp add: generateTabName_def Let_def addLog_fields defaultTabName_nonempty
        split: if_splits outcome.splits option.splits)

lemma generateTabName_part000_SomeD:
  assumes "generateTabName_part000 e m p h s = Some (nm, s')"
  shows "nm \<noteq> []"
  using assms
  by (auto simp add: generateTabName_part000_def Let_def defaultTabName_nonempty
        split: if_splits outcome.splits option.splits)

lemma generateTabName_name:
  "namingFunction s' = namingFunction s \<Longrightarrow>
     map_option fst (generateTabName e m p h s') = map_option fst (generateTabName e m p h s)"
  by (simp add: generateTabName_def Let_def split: outcome.split option.split)

lemma comparison_cong:
  assumes "namingFunction s' = namingFunction s"
  shows "comparison e s' x = comparison e s x"
proof -
  have g: "(case generateTabName e m p None s' of None \<Rightarrow> None | Some (newName, t) \<Rightarrow> Some (c, newName))
      = (case generateTabName e m p None s of None \<Rightarrow> None | Some (newName, t) \<Rightarrow> Some (c, newName))"
    for m p and c :: string
    using generateTabName_name [OF assms, of e m p None]
    by (cases "generateTabName e m p None s'"; cases "generateTabName e m p None s") auto
  show ?thesis
    by (simp add: comparison_def g split: option.split)
qed

lemma processSession_cases:
  obtains
    (skip)
      "comparison e s x = None"
      "stored (fst (processSession e x (s, n))) = stored s"
      "namingFunction (fst (processSession e x (s, n))) = namingFunction s"
      "storageWrites (fst (processSession e x (s, n))) = storageWrites s"
      "renameCalls (fst (processSession e x (s, n))) = renameCalls s"
  | (same) nm where
      "comparison e s x = Some (nm, nm)"
      "stored (fst (processSession e x (s, n))) = stored s"
      "namingFunction (fst (processSession e x (s, n))) = namingFunction s"
      "storageWrites (fst (processSession e x (s, n))) = storageWrites s"
      "renameCalls (fst (processSession e x (s, n))) = renameCalls s"
  | (call) cur new where
      "comparison e s x = Some (cur, new)" "cur \<noteq> new"
      "stored (fst (processSession e x (s, n))) = stored s"
      "namingFunction (fst (processSession e x (s, n))) = namingFunction s"
      "storageWrites (fst (processSession e x (s, n))) = storageWrites s"
      "renameCalls (fst (processSession e x (s, n))) = renameCalls s @ [(session_id x, new)]"
proof -
  let ?sid = "session_id x"
  let ?s1 = "addLog (ProcessingSession ?sid) s"
  have nf1: "namingFunction ?s1 = namingFunction s" by (simp add: addLog_fields)
  show thesis
  proof (cases "getSessionDetails e ?sid")
    case None
    then show thesis using skip
      by (simp add: processSession_def comparison_def Let_def addLog_fields)
  next
    case (Some entry)
    note en = Some
    show thesis
    proof (cases "entry_raw entry")
      case None
      with en show thesis using skip
        by (simp add: processSession_def comparison_def Let_def addLog_fields)
    next
      case (Some d)
      note dd = Some
      show thesis
      proof (cases d)
        case EmptyPayload
        with en dd show thesis using skip
          by (simp add: processSession_def comparison_def Let_def addLog_fields parseRawRequest_def)
      next
        case Malformed
        with en dd show thesis using skip
          by (simp add: processSession_def comparison_def Let_def addLog_fields)
      next
        case (Encoded decoded)
        note de = Encoded
        show thesis
        proof (cases "parseRawRequest decoded")
          case None
          with en dd de show thesis using skip
            by (simp add: processSession_def comparison_def Let_def addLog_fields)
        next
          case (Some r)
          have cs: "comparison e s x = comparison e ?s1 x"
            using comparison_cong [OF nf1, of e x] by simp
          show thesis
          proof (cases "generateTabName e (method r) (path r) None ?s1")
            case None
            with en dd de Some show thesis using skip cs
              by (simp add: processSession_def comparison_def Let_def addLog_fields)
          next
            case (Some res)
            obtain newName s2 where res: "res = (newName, s2)" by (cases res) auto
            note g = Some [unfolded res]
            note s2 = generateTabName_SomeD [OF g]
            have cmp: "comparison e s x = Some (currentName entry x, newName)"
              using en dd de \<open>parseRawRequest decoded = Some r\<close> g cs
              by (simp add: comparison_def)
            show thesis
            proof (cases "currentName entry x = newName")
              case True
              have "processSession e x (s, n) = (addLog (AlreadyCorrectlyNamed ?sid) s2, n)"
                using en dd de \<open>parseRawRequest decoded = Some r\<close> g True
                by (simp add: processSession_def Let_def)
              then show thesis using same [of newName] cmp True s2 by (simp add: addLog_fields)
            next
              case False
              have "stored (fst (processSession e x (s, n))) = stored s
                  \<and> namingFunction (fst (processSession e x (s, n))) = namingFunction s
                  \<and> storageWrites (fst (processSession e x (s, n))) = storageWrites s
                  \<and> renameCalls (fst (processSession e x (s, n))) = renameCalls s @ [(?sid, newName)]"
                using en dd de \<open>parseRawRequest decoded = Some r\<close> g False s2
                by (simp add: processSession_def Let_def addLog_fields split: option.split)
              then show thesis using call [OF cmp False] by simp
            qed
          qed
        qed
      qed
    qed
  qed
qed

lemma processSession_fields:
  "stored (fst (processSession e x (s, n))) = stored s"
  "namingFunction (fst (processSession e x (s, n))) = namingFunction s"
  "storageWrites (fst (processSession e x (s, n))) = storageWrites s"
  by (cases rule: processSession_cases [of e s x n]; simp)+

lemma processSession_calls:
  "renameCalls (fst (processSession e x (s, n))) =
     (case comparison e s x of
        None \<Rightarrow> renameCalls s
      | Some (cur, new) \<Rightarrow>
          if cur = new then renameCalls s else renameCalls s @ [(session_id x, new)])"
  by (cases rule: processSession_cases [of e s x n]) simp_all

lemma processSessions_fields:
  "stored (fst (processSessions e xs (s, n))) = stored s
   \<and> namingFunction (fst (processSessions e xs (s, n))) = namingFunction s
   \<and> storageWrites (fst (processSessions e xs (s, n))) = storageWrites s"
proof (induction xs arbitrary: s n)
  case Nil
  show ?case by simp
next
  case (Cons x xs)
  obtain s' n' where st: "processSession e x (s, n) = (s', n')"
    by (cases "processSession e x (s, n)") auto
  with processSession_fields [of e x s n]
  have "stored s' = stored s" "namingFunction s' = namingFunction s"
    "storageWrites s' = storageWrites s"
    by simp_all
  with Cons [of s' n'] st show ?case by simp
qed

lemma processSessions_calls:
  assumes "c \<in> set (renameCalls (fst (processSessions e xs (s, n))))"
  shows "c \<in> set (renameCalls s)
         \<or> (\<exists>x \<in> set xs. \<exists>cur. comparison e s x = Some (cur, snd c) \<and> cur \<noteq> snd c
                \<and> fst c = session_id x)"
  using assms
proof (induction xs arbitrary: s n)
  case Nil
  then show ?case by simp
next
  case (Cons x xs)
  obtain s' n' where st: "processSession e x (s, n) = (s', n')"
    by (cases "processSession e x (s, n)") auto
  with processSession_fields [of e x s n] have nf: "namingFunction s' = namingFunction s"
    by simp
  from Cons.prems st have "c \<in> set (renameCalls (fst (processSessions e xs (s', n'))))"
    by simp
  from Cons.IH [OF this]
  have "c \<in> set (renameCalls s')
         \<or> (\<exists>y \<in> set xs. \<exists>cur. comparison e s y = Some (cur, snd c) \<and> cur \<noteq> snd c
                \<and> fst c = session_id y)"
    by (simp add: comparison_cong [OF nf])
  moreover have "c \<in> set (renameCalls s') \<Longrightarrow>
      c \<in> set (renameCalls s) \<or> (\<exists>cur. comparison e s x = Some (cur, snd c) \<and> cur \<noteq> snd c
                \<and> fst c = session_id x)"
    using processSession_calls [of e x s n] st
    by (auto split: option.splits if_splits)
  ultimately show ?case by auto
qed

section \<open>Properties of the store and of the sync cycle\<close>


lemma getStorage_fields:
  "stored (snd (getStorage e s)) = stored s"
  "storageWrites (snd (getStorage e s)) = storageWrites s"
  "renameCalls (snd (getStorage e s)) = renameCalls s"
  "namingFunction (snd (getStorage e s)) = namingFunction s"
  "logsEnabled (snd (getStorage e s)) = logsEnabled s"
  "activityLogs (snd (getStorage e s)) = activityLogs s"
  by (simp_all add: getStorage_def Let_def split: option.split)

lemma getKnownSessions_fields:
  "stored (snd (getKnownSessions e s)) = stored s"
  "storageWrites (snd (getKnownSessions e s)) = storageWrites s"
  "renameCalls (snd (getKnownSessions e s)) = renameCalls s"
  "namingFunction (snd (getKnownSessions e s)) = namingFunction s"
  by (simp_all add: getKnownSessions_def getStorage_fields split: prod.split)
     (metis getStorage_fields snd_conv)+

lemma saveStorage_fields:
  "sdkInstance e \<Longrightarrow>
     stored (saveStorage e st s) = (if setFails e (storageWrites s) then stored s else Some st)"
  "renameCalls (saveStorage e st s) = renameCalls s"
  "namingFunction (saveStorage e st s) = namingFunction s"
  by (simp_all add: saveStorage_def Let_def)

lemma saveKnownSessions_fields:
  "sdkInstance e \<Longrightarrow>
     stored (saveKnownSessions e ids s) =
       (if setFails e (storageWrites s) then stored s
        else Some ((fst (getStorage e s))\<lparr>knownSessions := ids\<rparr>))"
  "renameCalls (saveKnownSessions e ids s) = renameCalls s"
  "namingFunction (saveKnownSessions e ids s) = namingFunction s"
proof -
  obtain st s' where g: "getStorage e s = (st, s')" by (cases "getStorage e s") auto
  then have f: "stored s' = stored s" "storageWrites s' = storageWrites s"
    "renameCalls s' = renameCalls s" "namingFunction s' = namingFunction s"
    using getStorage_fields [of e s] by simp_all
  show "sdkInstance e \<Longrightarrow>
     stored (saveKnownSessions e ids s) =
       (if setFails e (storageWrites s) then stored s
        else Some ((fst (getStorage e s))\<lparr>knownSessions := ids\<rparr>))"
    by (simp add: saveKnownSessions_def g saveStorage_fields f)
  show "renameCalls (saveKnownSessions e ids s) = renameCalls s"
    by (simp add: saveKnownSessions_def g saveStorage_fields f)
  show "namingFunction (saveKnownSessions e ids s) = namingFunction s"
    by (simp add: saveKnownSessions_def g saveStorage_fields f)
qed


text \<open>The state in which the loop over the new sessions starts, and what the cycle stores.\<close>

lemma cycle_shape:
  assumes sdk: "sdkInstance e" and ls: "getSessions e = Listing S" and ne: "S \<noteq> []"
  obtains known s2 st where
    "namingFunction s2 = namingFunction s" "renameCalls s2 = renameCalls s"
    "stored (checkAndRenameReplayTabs e s) =
       (if setFails e (storageWrites s) then stored s
        else Some (st\<lparr>knownSessions := newSet (map session_id S)\<rparr>))"
    "renameCalls (checkAndRenameReplayTabs e s) =
       renameCalls (fst (processSessions e
         (filter (\<lambda>session. session_id session \<notin> set known) S) (s2, 0)))"
proof -
  let ?s1 = "addLog CheckingSessions s"
  obtain known s1' where k: "getKnownSessions e ?s1 = (known, s1')"
    by (cases "getKnownSessions e ?s1") auto
  then have f1: "stored s1' = stored s" "storageWrites s1' = storageWrites s"
    "renameCalls s1' = renameCalls s" "namingFunction s1' = namingFunction s"
    using getKnownSessions_fields [of e ?s1] by (simp_all add: addLog_fields)
  let ?new = "filter (\<lambda>session. session_id session \<notin> set known) S"
  let ?ids = "newSet (map session_id S)"
  let ?s2 = "updateCounts (length S) (length known) (length ?new)
               (addLog (SessionStats (length S) (length known) (length ?new)) s1')"
  have f2: "stored ?s2 = stored s" "namingFunction ?s2 = namingFunction s"
    "renameCalls ?s2 = renameCalls s" "storageWrites ?s2 = storageWrites s"
    by (simp_all add: updateCounts_fields addLog_fields f1)
  obtain s3 rc where ps: "processSessions e ?new (?s2, 0) = (s3, rc)"
    by (cases "processSessions e ?new (?s2, 0)") auto
  have f3: "stored s3 = stored s" "namingFunction s3 = namingFunction s"
    "storageWrites s3 = storageWrites s"
    using processSessions_fields [of e ?new ?s2 0] ps f2 by simp_all
  show thesis
  proof (cases "?new = []")
    case True
    let ?t = "addLog NoNewSessions ?s2"
    have r: "checkAndRenameReplayTabs e s = saveKnownSessions e ?ids ?t"
      using sdk ls ne True k by (simp add: checkAndRenameReplayTabs_def Let_def)
    have "stored (checkAndRenameReplayTabs e s) =
       (if setFails e (storageWrites s) then stored s
        else Some ((fst (getStorage e ?t))\<lparr>knownSessions := ?ids\<rparr>))"
      using sdk by (simp add: r saveKnownSessions_fields addLog_fields f2)
    moreover have "renameCalls (checkAndRenameReplayTabs e s) =
        renameCalls (fst (processSessions e ?new (?s2, 0)))"
      using True by (simp add: r saveKnownSessions_fields addLog_fields f2)
    ultimately show thesis using that [of ?s2 "fst (getStorage e ?t)" known] f2 by simp
  next
    case False
    let ?s4 = "addLog (SavedAsKnown (length ?ids)) (saveKnownSessions e ?ids s3)"
    let ?s5 = "if rc > 0 then addLog (SessionsRenamed rc) ?s4 else ?s4"
    obtain finalKnown s6 where fk: "getKnownSessions e ?s5 = (finalKnown, s6)"
      by (cases "getKnownSessions e ?s5") auto
    then have f6: "stored s6 = stored ?s5" "renameCalls s6 = renameCalls ?s5"
      using getKnownSessions_fields [of e ?s5] by simp_all
    have r: "checkAndRenameReplayTabs e s = updateCounts (length S) (length finalKnown) 0 s6"
      using sdk ls ne False ps k fk by (simp add: checkAndRenameReplayTabs_def Let_def)
    have "stored (checkAndRenameReplayTabs e s) =
       (if setFails e (storageWrites s) then stored s
        else Some ((fst (getStorage e s3))\<lparr>knownSessions := ?ids\<rparr>))"
      using sdk by (simp add: r updateCounts_fields f6 addLog_fields saveKnownSessions_fields f3)
    moreover have "renameCalls (checkAndRenameReplayTabs e s) =
        renameCalls (fst (processSessions e ?new (?s2, 0)))"
      by (simp add: r ps updateCounts_fields f6 addLog_fields saveKnownSessions_fields)
    ultimately show thesis using that [of ?s2 "fst (getStorage e s3)" known] f2 by simp
  qed
qed

lemma cycle_unchanged:
  assumes "\<not> (sdkInstance e \<and> (\<exists>S. getSessions e = Listing S \<and> S \<noteq> []))"
  shows "stored (checkAndRenameReplayTabs e s) = stored s
         \<and> renameCalls (checkAndRenameReplayTabs e s) = renameCalls s"
  using assms
  by (cases "getSessions e")
     (auto simp add: checkAndRenameReplayTabs_def Let_def addLog_fields updateCounts_fields)

lemma cycle_calls:
  assumes a: "(i, new) \<in> set (renameCalls (checkAndRenameReplayTabs e s))"
    and b: "(i, new) \<notin> set (renameCalls s)"
  shows "\<exists>S x cur. getSessions e = Listing S \<and> x \<in> set S \<and> session_id x = i
            \<and> comparison e s x = Some (cur, new) \<and> cur \<noteq> new"
proof (cases "sdkInstance e \<and> (\<exists>S. getSessions e = Listing S \<and> S \<noteq> [])")
  case False
  then have "renameCalls (checkAndRenameReplayTabs e s) = renameCalls s"
    using cycle_unchanged [of e s] by blast
  with a b show ?thesis by simp
next
  case True
  then obtain S where sdk: "sdkInstance e" and ls: "getSessions e = Listing S" and ne: "S \<noteq> []"
    by blast
  from cycle_shape [OF sdk ls ne, of s] obtain known s2 where
    nf: "namingFunction s2 = namingFunction s" and rc: "renameCalls s2 = renameCalls s" and
    calls: "renameCalls (checkAndRenameReplayTabs e s) =
     renameCalls (fst (processSessions e
       (filter (\<lambda>session. session_id session \<notin> set known) S) (s2, 0)))"
    by metis
  let ?new = "filter (\<lambda>session. session_id session \<notin> set known) S"
  from a calls have m: "(i, new) \<in> set (renameCalls (fst (processSessions e ?new (s2, 0))))"
    by simp
  from processSessions_calls [OF m] b rc
  have "\<exists>x \<in> set ?new. \<exists>cur. comparison e s2 x = Some (cur, new) \<and> cur \<noteq> new
          \<and> i = session_id x"
    by simp
  then obtain x cur where "x \<in> set ?new" "comparison e s2 x = Some (cur, new)" "cur \<noteq> new"
    "i = session_id x"
    by blast
  then show ?thesis using ls comparison_cong [OF nf] by auto
qed

lemma generateTabName_userFunction:
  "(\<forall>src m p. f src m p [] = userFunction e src m p []) \<Longrightarrow>
     generateTabName (e\<lparr>userFunction := f\<rparr>) m p None s = generateTabName e m p None s"
  by (simp add: generateTabName_def Let_def)

lemma getSessionDetails_userFunction:
  "getSessionDetails (e\<lparr>userFunction := f\<rparr>) i = getSessionDetails e i"
  by (simp add: getSessionDetails_def split: auth.split)

lemma processSession_userFunction:
  assumes "\<forall>src m p. f src m p [] = userFunction e src m p []"
  shows "processSession (e\<lparr>userFunction := f\<rparr>) x acc = processSession e x acc"
  using generateTabName_userFunction [of f e] assms
  by (simp add: processSession_def Let_def getSessionDetails_userFunction
        split: prod.split option.split payload.split)

lemma processSessions_userFunction:
  assumes "\<forall>src m p. f src m p [] = userFunction e src m p []"
  shows "processSessions (e\<lparr>userFunction := f\<rparr>) xs acc = processSessions e xs acc"
  using processSession_userFunction [of f e] assms
  by (induction xs arbitrary: acc) simp_all

lemma store_userFunction:
  "getKnownSessions (e\<lparr>userFunction := f\<rparr>) s = getKnownSessions e s"
  "saveKnownSessions (e\<lparr>userFunction := f\<rparr>) ids s = saveKnownSessions e ids s"
  by (simp_all add: getKnownSessions_def saveKnownSessions_def getStorage_def saveStorage_def)

lemma getSessionDetails_None_iff:
  "(getSessionDetails e i = None) =
     (\<not> sdkInstance e \<or> authentication e = AuthUnreadable \<or> authentication e = TokenMissing
      \<or> graphql e i = Body None)"
  by (simp add: getSessionDetails_def split: auth.split fetch_result.split)

lemma getSessionDetails_fallback:
  "sdkInstance e \<Longrightarrow> authentication e = AccessToken t \<Longrightarrow>
     graphql e i = FetchThrows \<or> graphql e i = ResponseNotOk \<or> graphql e i = BodyUnreadable \<Longrightarrow>
     getSessionDetails e i = Some (fallbackEntry i)"
  by (auto simp add: getSessionDetails_def)

lemma processSession_no_details:
  assumes "getSessionDetails e (session_id x) = None
     \<or> (\<exists>entry. getSessionDetails e (session_id x) = Some entry
           \<and> (entry_raw entry = None \<or> entry_raw entry = Some EmptyPayload))"
  shows "processSession e x (s, n) =
           (addLog (NoDetailsFor (session_id x)) (addLog (ProcessingSession (session_id x)) s), n)"
    and "comparison e s x = None"
  using assms
  by (auto simp add: processSession_def comparison_def Let_def parseRawRequest_def)

lemma fallback_comparison:
  assumes "getSessionDetails e (session_id x) = Some (fallbackEntry (session_id x))"
    and "trim (namingFunction s) = []"
  shows "comparison e s x = Some (''Session '' @ session_id x, ''GET /api/fallback'')"
proof -
  have p: "parseRawRequest (''GET /api/fallback HTTP/1.1'' @ [LF] @ ''Host: localhost'' @ [LF, LF])
             = Some \<lparr>method = ''GET'', path = ''/api/fallback'', host = ''localhost''\<rparr>"
    by code_simp
  have d: "defaultTabName ''GET'' ''/api/fallback'' = ''GET /api/fallback''"
    by code_simp
  have g: "generateTabName e ''GET'' ''/api/fallback'' None s = Some (''GET /api/fallback'', s)"
    using assms(2) by (simp add: generateTabName_def d)
  show ?thesis
    using assms(1) p g
    by (simp add: comparison_def fallbackEntry_def btoa_def currentName_def)
qed

section \<open>The request parser\<close>

text \<open>
  C7.  The parser has two outcomes: the parse-failure signal, or a record whose method and
  path are not empty.  It yields the failure signal for the empty string, for every
  input without a whitespace character (one line with a single token) and for every
  input made of whitespace only (nothing but blank lines).
\<close>

theorem parseRawRequest_failure_signal:
  "(parseRawRequest raw = None
      \<or> (\<exists>m p h. parseRawRequest raw = Some \<lparr>method = m, path = p, host = h\<rparr> \<and> m \<noteq> [] \<and> p \<noteq> []))
   \<and> parseRawRequest [] = None
   \<and> (\<not> list_ex isWhitespace raw \<longrightarrow> parseRawRequest raw = None)
   \<and> (list_all isWhitespace raw \<longrightarrow> parseRawRequest raw = None)"
proof -
  have "parseRawRequest raw = None
      \<or> (\<exists>m p h. parseRawRequest raw = Some \<lparr>method = m, path = p, host = h\<rparr> \<and> m \<noteq> [] \<and> p \<noteq> [])"
  proof (cases "parseRawRequest raw")
    case None
    then show ?thesis by simp
  next
    case (Some r)
    moreover have "r = \<lparr>method = method r, path = path r, host = host r\<rparr>" by simp
    ultimately show ?thesis using parse_Some_nonempty [OF Some] by metis
  qed
  moreover have "parseRawRequest [] = None" by (simp add: parseRawRequest_def)
  ultimately show ?thesis using parse_no_whitespace parse_all_whitespace by blast
qed

theorem parseRawRequest_failure_signal_witness:
  "\<not> list_ex isWhitespace ''garbage'' \<and> parseRawRequest ''garbage'' = None
   \<and> list_all isWhitespace ('' '' @ [LF, CR, LF] @ ''  '') \<and> parseRawRequest ('' '' @ [LF, CR, LF] @ ''  '') = None
   \<and> parseRawRequest ''GET /x'' = Some \<lparr>method = ''GET'', path = ''/x'', host = []\<rparr>"
proof -
  have a: "\<not> list_ex isWhitespace ''garbage''" by (simp add: isWhitespace_def)
  have b: "list_all isWhitespace ('' '' @ [LF, CR, LF] @ ''  '')"
    by (simp add: isWhitespace_def LF_def CR_def)
  have c: "parseRawRequest ''GET /x'' \<noteq> None"
    by code_simp
  from parseRawRequest_failure_signal [of "''GET /x''"] c
  have "\<exists>m p h. parseRawRequest ''GET /x'' = Some \<lparr>method = m, path = p, host = h\<rparr>" by blast
  then have d: "parseRawRequest ''GET /x'' = Some \<lparr>method = ''GET'', path = ''/x'', host = []\<rparr>"
    by (simp add: parseRawRequest_def normalizeLineBreaks_def replaceCR_def LF_def CR_def Let_def trim_def isWhitespace_def startsWith_host)
  show ?thesis
    using a b d parseRawRequest_failure_signal [of "''garbage''"]
      parseRawRequest_failure_signal [of "'' '' @ [LF, CR, LF] @ ''  ''"]
    by blast
qed

text \<open>
  C8.  When the parser returns a record, its host is the one the specification describes:
  the trimmed remainder behind the colon of the first line that, trimmed, begins with
  \<^verbatim>\<open>host:\<close> in any case, and the empty string when there is no such line.  In particular
  a header line \<^verbatim>\<open>Host:   example.com\<close> with no Host line before it gives \<^verbatim>\<open>example.com\<close>.
\<close>

theorem parseRawRequest_host_header:
  "parseRawRequest raw = Some r \<Longrightarrow>
     host r = specHost (splitLines (normalizeLineBreaks raw))
     \<and> (\<forall>pre post. splitLines (normalizeLineBreaks raw) = pre @ ''Host:   example.com'' # post
            \<and> \<not> list_ex specHostLine pre \<longrightarrow> host r = ''example.com'')"
proof -
  assume p: "parseRawRequest raw = Some r"
  have h: "host r = specHost (splitLines (normalizeLineBreaks raw))"
    using parseRawRequest_host [OF p] by (simp add: findHost_specHost)
  have l: "specHostLine ''Host:   example.com''"
    by (simp add: specHostLine_def trim_def isWhitespace_def)
  have t: "trim (drop 5 (trim ''Host:   example.com'')) = ''example.com''"
    by (simp add: trim_def isWhitespace_def)
  show ?thesis
    using h specHost_append [OF _ l] t by auto
qed

theorem parseRawRequest_host_header_witness:
  "parseRawRequest hostExample = Some \<lparr>method = ''GET'', path = ''/x'', host = ''example.com''\<rparr>
   \<and> specHost (splitLines (normalizeLineBreaks hostExample)) = ''example.com''
   \<and> splitLines (normalizeLineBreaks hostExample) =
       [''GET /x HTTP/1.1'', ''Accept: */*''] @ ''Host:   example.com'' # [''Connection: close'', [], []]
   \<and> \<not> list_ex specHostLine [''GET /x HTTP/1.1'', ''Accept: */*'']"
proof -
  let ?r = "\<lparr>method = ''GET'', path = ''/x'', host = ''example.com''\<rparr>"
  have p: "parseRawRequest hostExample = Some ?r"
    by code_simp
  have l: "splitLines (normalizeLineBreaks hostExample) =
       [''GET /x HTTP/1.1'', ''Accept: */*''] @ ''Host:   example.com'' # [''Connection: close'', [], []]"
    by code_simp
  have n: "\<not> list_ex specHostLine [''GET /x HTTP/1.1'', ''Accept: */*'']"
    by code_simp
  note t = parseRawRequest_host_header [OF p]
  from t have "host ?r = specHost (splitLines (normalizeLineBreaks hostExample))" by blast
  then have h: "specHost (splitLines (normalizeLineBreaks hostExample)) = ''example.com''" by simp
  from t l n have "host ?r = ''example.com''" by blast
  then show ?thesis using p h l n by blast
qed

section \<open>The default naming algorithm\<close>

text \<open>
  C2, as stated, at method \<^verbatim>\<open>GET\<close> and a path of 42 characters: the name is longer than
  30 before truncation, and the truncated name does not have the length
  \<open>len(M) + 1 + (27 - len(M)) + 3\<close>, which is 31.
\<close>

theorem defaultTabName_length_counterexample:
  "30 < length ''GET'' + 1 + length (cleanPath longPathExample)
   \<and> length (defaultTabName ''GET'' longPathExample) \<noteq> length ''GET'' + 1 + (27 - length ''GET'') + 3"
  by code_simp

text \<open>
  C2, amended.  When method, a space and the cleaned path are more than 30 characters, the
  name is the method, a space, the first \<open>30 - len(M) - 4\<close> characters of the cleaned
  path (none when the method has more than 26 characters) and \<^verbatim>\<open>...\<close>.  It ends with
  \<^verbatim>\<open>...\<close>, and for a method of at most 26 characters its length is
  \<open>len(M) + 1 + (26 - len(M)) + 3\<close>, which is 30.
\<close>

theorem defaultTabName_truncation:
  "30 < length M + 1 + length (cleanPath P) \<Longrightarrow>
     defaultTabName M P = M @ '' '' @ take (nat (30 - int (length M) - 4)) (cleanPath P) @ ''...''
     \<and> (length M \<le> 26 \<longrightarrow> length (defaultTabName M P) = length M + 1 + (26 - length M) + 3
                          \<and> length (defaultTabName M P) = 30)
     \<and> (26 < length M \<longrightarrow> defaultTabName M P = M @ '' ...'')
     \<and> drop (length (defaultTabName M P) - 3) (defaultTabName M P) = ''...''"
proof -
  assume a: "30 < length M + 1 + length (cleanPath P)"
  then have e: "defaultTabName M P = M @ '' '' @ take (nat (30 - int (length M) - 4)) (cleanPath P) @ ''...''"
    by (simp add: defaultTabName_def maxLength_def substring0_def Let_def)
  have l: "length M \<le> 26 \<longrightarrow> length (defaultTabName M P) = 30"
    using a by (auto simp add: e)
  have g: "26 < length M \<longrightarrow> defaultTabName M P = M @ '' ...''"
    by (simp add: e)
  have d: "drop (length (defaultTabName M P) - 3) (defaultTabName M P) = ''...''"
    by (simp add: e)
  show ?thesis using e l g d by auto
qed

theorem defaultTabName_truncation_witness:
  "30 < length ''GET'' + 1 + length (cleanPath longPathExample)
   \<and> defaultTabName ''GET'' longPathExample = ''GET /very/long/path/that/ex...''
   \<and> length (defaultTabName ''GET'' longPathExample) = 30
   \<and> 30 < length longMethodExample + 1 + length (cleanPath ''/abc'')
   \<and> 26 < length longMethodExample
   \<and> defaultTabName longMethodExample ''/abc'' = longMethodExample @ '' ...''"
proof -
  have a: "30 < length ''GET'' + 1 + length (cleanPath longPathExample)" by code_simp
  have c: "cleanPath longPathExample = longPathExample" by code_simp
  have b: "30 < length longMethodExample + 1 + length (cleanPath ''/abc'')" by code_simp
  have m: "26 < length longMethodExample" by code_simp
  from defaultTabName_truncation [OF a]
  have 1: "defaultTabName ''GET'' longPathExample = ''GET /very/long/path/that/ex...''
      \<and> length (defaultTabName ''GET'' longPathExample) = 30"
    by (simp add: c) (simp add: longPathExample_def)
  from defaultTabName_truncation [OF b] m
  have 2: "defaultTabName longMethodExample ''/abc'' = longMethodExample @ '' ...''"
    by blast
  show ?thesis using a b m 1 2 by blast
qed

text \<open>
  C9.  The generator receives the paths the request parser returns, which hold no
  whitespace.  For every such path, and for every path without a whitespace character, the
  cleaned path is the path cut at its first \<^verbatim>\<open>?\<close> or \<^verbatim>\<open>#\<close> with every character outside
  \<^verbatim>\<open>[A-Za-z0-9/_.-]\<close> removed; \<^verbatim>\<open>/a/b?x=1#frag\<close> is cleaned to \<^verbatim>\<open>/a/b\<close>.
\<close>

theorem cleanPath_sanitization:
  "(parseRawRequest raw = Some r \<longrightarrow> cleanPath (path r) = specCleanPath (path r))
   \<and> (\<not> list_ex isWhitespace p \<longrightarrow> cleanPath p = specCleanPath p)
   \<and> cleanPath ''/a/b?x=1#frag'' = ''/a/b''"
proof -
  have w: "\<not> list_ex isWhitespace q \<Longrightarrow> cleanPath q = specCleanPath q" for q
    using isLineTerminator_isWhitespace
    by (intro cleanPath_no_terminator) (auto simp add: list_ex_iff)
  have "parseRawRequest raw = Some r \<longrightarrow> cleanPath (path r) = specCleanPath (path r)"
    using parse_path_no_whitespace [of raw r] w by blast
  moreover have "cleanPath ''/a/b?x=1#frag'' = ''/a/b''" by code_simp
  ultimately show ?thesis using w by blast
qed

theorem cleanPath_sanitization_witness:
  "\<not> list_ex isWhitespace ''/a/b?x=1#frag'' \<and> specCleanPath ''/a/b?x=1#frag'' = ''/a/b''
   \<and> parseRawRequest scenarioRequest = Some \<lparr>method = ''GET'', path = ''/foo/bar?x=1'', host = ''h.test''\<rparr>
   \<and> specCleanPath ''/foo/bar?x=1'' = ''/foo/bar''"
proof -
  have a: "\<not> list_ex isWhitespace ''/a/b?x=1#frag''" by code_simp
  have p: "parseRawRequest scenarioRequest = Some \<lparr>method = ''GET'', path = ''/foo/bar?x=1'', host = ''h.test''\<rparr>"
    by code_simp
  have c: "cleanPath ''/foo/bar?x=1'' = ''/foo/bar''" by code_simp
  let ?r = "\<lparr>method = ''GET'', path = ''/foo/bar?x=1'', host = ''h.test''\<rparr>"
  note t = cleanPath_sanitization [of scenarioRequest ?r "''/a/b?x=1#frag''"]
  from t a have e1: "cleanPath ''/a/b?x=1#frag'' = specCleanPath ''/a/b?x=1#frag''" by blast
  from t have e2: "cleanPath ''/a/b?x=1#frag'' = ''/a/b''" by blast
  from t p have e3: "cleanPath (path ?r) = specCleanPath (path ?r)" by blast
  have f1: "specCleanPath ''/a/b?x=1#frag'' = ''/a/b''" using e1 e2 by metis
  have f2: "specCleanPath ''/foo/bar?x=1'' = ''/foo/bar''" using e3 c by (metis ParsedRequest.select_convs(2))
  show ?thesis using a p f1 f2 by blast
qed

section \<open>The sync cycle\<close>

text \<open>
  C6, as stated, at a session that the host lists under the name \<^verbatim>\<open>GET /api/fallback\<close> and
  whose GraphQL request raises: the candidate name is the session's name, but the loop
  compares it with the name \<^verbatim>\<open>Session a\<close> of the fallback entry and calls the rename API.
\<close>

theorem rename_to_listed_name_counterexample:
  "map session_id relistedListing = [''a'']
   \<and> map session_name relistedListing = [''GET /api/fallback'']
   \<and> renameCalls (checkAndRenameReplayTabs relistedEnv initialState) = [(''a'', ''GET /api/fallback'')]"
  by code_simp

text \<open>
  C6, amended.  The name the loop takes as current is the name in the fetched entry when
  that is not empty (for the fallback entry, \<^verbatim>\<open>Session\<close> and the id) and the listed name
  otherwise.  A pass of the loop body in which the candidate name equals that name leaves
  the calls of the rename API as they are; and every call of the rename API made during a
  sync cycle is for a listed session whose candidate name differs from that name.
\<close>

theorem no_redundant_rename:
  "(comparison e s x = Some (nm, nm) \<longrightarrow>
      renameCalls (fst (processSession e x (s, n))) = renameCalls s)
   \<and> ((i, new) \<in> set (renameCalls (checkAndRenameReplayTabs e s)) \<and> (i, new) \<notin> set (renameCalls s) \<longrightarrow>
        (\<exists>S x cur. getSessions e = Listing S \<and> x \<in> set S \<and> session_id x = i
            \<and> comparison e s x = Some (cur, new) \<and> cur \<noteq> new))
   \<and> (comparison e s x = Some (cur, new) \<longrightarrow>
        (\<exists>entry. getSessionDetails e (session_id x) = Some entry
           \<and> cur = (case entry_session_name entry of
                      None \<Rightarrow> session_name x
                    | Some name \<Rightarrow> if name = [] then session_name x else name)))
   \<and> entry_session_name (fallbackEntry (session_id x)) = Some (''Session '' @ session_id x)"
proof -
  have 1: "comparison e s x = Some (nm, nm) \<longrightarrow>
      renameCalls (fst (processSession e x (s, n))) = renameCalls s"
    by (simp add: processSession_calls)
  have 3: "\<exists>entry. getSessionDetails e (session_id x) = Some entry
           \<and> cur = (case entry_session_name entry of
                      None \<Rightarrow> session_name x
                    | Some name \<Rightarrow> if name = [] then session_name x else name)"
    if "comparison e s x = Some (cur, new)"
    using that
    by (auto simp add: comparison_def currentName_def split: option.splits)
  have 4: "entry_session_name (fallbackEntry (session_id x)) = Some (''Session '' @ session_id x)"
    by (simp add: fallbackEntry_def)
  show ?thesis using 1 3 4 cycle_calls [of i new e s] by blast
qed

theorem no_redundant_rename_witness:
  "comparison namedEnv initialState (hd scenarioListing) = Some (''GET /foo/bar'', ''GET /foo/bar'')
   \<and> renameCalls (fst (processSession namedEnv (hd scenarioListing) (initialState, 0))) = []
   \<and> (''a'', ''GET /foo/bar'') \<in> set (renameCalls (checkAndRenameReplayTabs scenarioEnv initialState))
   \<and> (''a'', ''GET /foo/bar'') \<notin> set (renameCalls initialState)
   \<and> comparison scenarioEnv initialState (hd scenarioListing) = Some (''old'', ''GET /foo/bar'')"
proof -
  have c: "comparison namedEnv initialState (hd scenarioListing) = Some (''GET /foo/bar'', ''GET /foo/bar'')"
    by code_simp
  have r: "renameCalls initialState = []" by (simp add: initialState_def)
  have a: "(''a'', ''GET /foo/bar'') \<in> set (renameCalls (checkAndRenameReplayTabs scenarioEnv initialState))"
    by code_simp
  have d: "comparison scenarioEnv initialState (hd scenarioListing) = Some (''old'', ''GET /foo/bar'')"
    by code_simp
  from no_redundant_rename [of namedEnv initialState "hd scenarioListing" "''GET /foo/bar''" 0
      "''a''" "''GET /foo/bar''" "''GET /foo/bar''"] c r
  have "renameCalls (fst (processSession namedEnv (hd scenarioListing) (initialState, 0))) = []"
    by simp
  moreover from no_redundant_rename [of scenarioEnv initialState "hd scenarioListing" "''x''" 0
      "''a''" "''GET /foo/bar''" "''old''"] a r
  have "\<exists>S x cur. getSessions scenarioEnv = Listing S \<and> x \<in> set S \<and> session_id x = ''a''
            \<and> comparison scenarioEnv initialState x = Some (cur, ''GET /foo/bar'') \<and> cur \<noteq> ''GET /foo/bar''"
    by simp
  ultimately show ?thesis using c r a d by simp
qed







text \<open>
  C10.  The loop body calls the generator with method and path only, so the custom naming
  function is evaluated at the empty host and nowhere else: two custom functions that
  agree whenever the host is empty give the same sync cycle, whatever they do for other
  hosts and whatever Host header the parser found.
\<close>

theorem host_not_passed_to_generator:
  "(\<forall>src m p. f src m p [] = userFunction e src m p []) \<Longrightarrow>
     checkAndRenameReplayTabs (e\<lparr>userFunction := f\<rparr>) s = checkAndRenameReplayTabs e s"
proof -
  assume a: "\<forall>src m p. f src m p [] = userFunction e src m p []"
  show ?thesis
    using processSessions_userFunction [of f e] a
    by (simp add: checkAndRenameReplayTabs_def Let_def store_userFunction
          split: listing.split prod.split)
qed

theorem host_not_passed_to_generator_witness:
  "checkAndRenameReplayTabs (echoHostEnv\<lparr>userFunction := (\<lambda>src m p h. ReturnsString [])\<rparr>) customState
     = checkAndRenameReplayTabs echoHostEnv customState
   \<and> parseRawRequest scenarioRequest = Some \<lparr>method = ''GET'', path = ''/foo/bar?x=1'', host = ''h.test''\<rparr>
   \<and> renameCalls (checkAndRenameReplayTabs echoHostEnv customState) = [(''a'', ''GET /foo/bar'')]"
proof -
  have a: "\<forall>src m p. (\<lambda>src m p h. ReturnsString []) src m p [] = userFunction echoHostEnv src m p []"
    by (simp add: echoHostEnv_def)
  have p: "parseRawRequest scenarioRequest = Some \<lparr>method = ''GET'', path = ''/foo/bar?x=1'', host = ''h.test''\<rparr>"
    by code_simp
  have r: "renameCalls (checkAndRenameReplayTabs echoHostEnv customState) = [(''a'', ''GET /foo/bar'')]"
    by code_simp
  from host_not_passed_to_generator [of "\<lambda>src m p h. ReturnsString []" echoHostEnv customState] a
  show ?thesis using p r by simp
qed

text \<open>
  C1, as stated, at a session whose GraphQL request raises: \<^verbatim>\<open>getSessionDetails\<close> answers with
  its fallback entry, the cycle goes on with it and calls the rename API with
  \<^verbatim>\<open>GET /api/fallback\<close>.
\<close>

theorem fetch_failure_renames_counterexample:
  "graphql fetchThrowsEnv ''a'' = FetchThrows
   \<and> renameCalls (checkAndRenameReplayTabs fetchThrowsEnv initialState) = [(''a'', ''GET /api/fallback'')]"
  by code_simp

text \<open>
  C1, amended.  When \<^verbatim>\<open>getSessionDetails\<close> returns nothing, or an entry with a missing or
  empty raw payload, the loop body only calls \<^verbatim>\<open>addLog\<close> with the notice that there are no
  details, which the log records when it is switched on, and skips the session: it
  compares no names and does not call the rename API, and the whole cycle makes no rename
  call for the id of that session.  \<^verbatim>\<open>getSessionDetails\<close> returns nothing
  when the SDK or the access token is missing, the authentication data cannot be read, or
  the answer has no active entry; when the GraphQL request raises, is not ok or has an
  unreadable body it returns the fallback entry, with which a session is renamed to
  \<^verbatim>\<open>GET /api/fallback\<close> when there is no custom naming function.
\<close>

theorem missing_details_skip:
  "(getSessionDetails e (session_id x) = None
      \<or> (\<exists>entry. getSessionDetails e (session_id x) = Some entry
            \<and> (entry_raw entry = None \<or> entry_raw entry = Some EmptyPayload))
    \<longrightarrow> processSession e x (s, n) =
          (addLog (NoDetailsFor (session_id x)) (addLog (ProcessingSession (session_id x)) s), n)
        \<and> comparison e s x = None
        \<and> renameCalls (fst (processSession e x (s, n))) = renameCalls s
        \<and> (logsEnabled s \<longrightarrow>
             activityLogs (fst (processSession e x (s, n))) =
               take 50 (NoDetailsFor (session_id x) # ProcessingSession (session_id x) # activityLogs s))
        \<and> (\<not> logsEnabled s \<longrightarrow> fst (processSession e x (s, n)) = s))
   \<and> (getSessionDetails e i = None
        \<or> (\<exists>entry. getSessionDetails e i = Some entry
              \<and> (entry_raw entry = None \<or> entry_raw entry = Some EmptyPayload))
      \<longrightarrow> (\<forall>nm. (i, nm) \<in> set (renameCalls (checkAndRenameReplayTabs e s))
                  \<longrightarrow> (i, nm) \<in> set (renameCalls s)))
   \<and> ((getSessionDetails e i = None) =
        (\<not> sdkInstance e \<or> authentication e = AuthUnreadable \<or> authentication e = TokenMissing
         \<or> graphql e i = Body None))
   \<and> (sdkInstance e \<and> authentication e = AccessToken t
        \<and> (graphql e i = FetchThrows \<or> graphql e i = ResponseNotOk \<or> graphql e i = BodyUnreadable)
      \<longrightarrow> getSessionDetails e i = Some (fallbackEntry i))
   \<and> (getSessionDetails e (session_id x) = Some (fallbackEntry (session_id x))
        \<and> trim (namingFunction s) = []
      \<longrightarrow> renameCalls (fst (processSession e x (s, n))) =
            renameCalls s @ [(session_id x, ''GET /api/fallback'')])"
proof -
  have skip: "processSession e x (s, n) =
          (addLog (NoDetailsFor (session_id x)) (addLog (ProcessingSession (session_id x)) s), n)
        \<and> comparison e s x = None
        \<and> renameCalls (fst (processSession e x (s, n))) = renameCalls s
        \<and> (logsEnabled s \<longrightarrow>
             activityLogs (fst (processSession e x (s, n))) =
               take 50 (NoDetailsFor (session_id x) # ProcessingSession (session_id x) # activityLogs s))
        \<and> (\<not> logsEnabled s \<longrightarrow> fst (processSession e x (s, n)) = s)"
    if a: "getSessionDetails e (session_id x) = None
      \<or> (\<exists>entry. getSessionDetails e (session_id x) = Some entry
            \<and> (entry_raw entry = None \<or> entry_raw entry = Some EmptyPayload))"
  proof -
    note p = processSession_no_details [OF a]
    show ?thesis
      by (simp add: p addLog_fields addLog_twice addLog_disabled)
  qed
  have fb: "renameCalls (fst (processSession e x (s, n))) =
            renameCalls s @ [(session_id x, ''GET /api/fallback'')]"
    if b: "getSessionDetails e (session_id x) = Some (fallbackEntry (session_id x))"
      and c: "trim (namingFunction s) = []"
    using fallback_comparison [OF b c] by (simp add: processSession_calls)
  have cyc: "(i, nm) \<in> set (renameCalls s)"
    if c: "getSessionDetails e i = None
        \<or> (\<exists>entry. getSessionDetails e i = Some entry
              \<and> (entry_raw entry = None \<or> entry_raw entry = Some EmptyPayload))"
      and d: "(i, nm) \<in> set (renameCalls (checkAndRenameReplayTabs e s))"
    for nm
  proof (rule ccontr)
    assume "(i, nm) \<notin> set (renameCalls s)"
    from cycle_calls [OF d this] obtain y cur where
      y: "session_id y = i" "comparison e s y = Some (cur, nm)"
      by blast
    from c y(1) have "comparison e s y = None"
      by (intro processSession_no_details(2)) simp
    with y(2) show False by simp
  qed
  show ?thesis
    using skip fb cyc getSessionDetails_None_iff [of e i] getSessionDetails_fallback [of e t i]
    by blast
qed

theorem missing_details_skip_witness:
  "getSessionDetails failingEnv ''a'' = None
   \<and> processSession failingEnv \<lparr>session_id = ''a'', session_name = ''one''\<rparr> (initialState, 0) =
       (initialState\<lparr>activityLogs := [NoDetailsFor ''a'', ProcessingSession ''a'']\<rparr>, 0)
   \<and> (''a'', ''GET /foo/bar'') \<notin> set (renameCalls (checkAndRenameReplayTabs failingEnv initialState))
   \<and> graphql fetchThrowsEnv ''a'' = FetchThrows
   \<and> getSessionDetails fetchThrowsEnv ''a'' = Some (fallbackEntry ''a'')
   \<and> renameCalls (fst (processSession fetchThrowsEnv \<lparr>session_id = ''a'', session_name = ''old''\<rparr>
                          (initialState, 0))) = [(''a'', ''GET /api/fallback'')]"
proof -
  let ?a = "\<lparr>session_id = ''a'', session_name = ''one''\<rparr>"
  let ?b = "\<lparr>session_id = ''a'', session_name = ''old''\<rparr>"
  have n: "getSessionDetails failingEnv ''a'' = None" by code_simp
  have l: "addLog (NoDetailsFor ''a'') (addLog (ProcessingSession ''a'') initialState)
           = initialState\<lparr>activityLogs := [NoDetailsFor ''a'', ProcessingSession ''a'']\<rparr>"
    by (simp add: addLog_def initialState_def)
  have f: "sdkInstance fetchThrowsEnv" "authentication fetchThrowsEnv = AccessToken ''token''"
    "graphql fetchThrowsEnv ''a'' = FetchThrows"
    by (simp_all add: fetchThrowsEnv_def scenarioEnv_def)
  have t: "trim (namingFunction initialState) = []" "renameCalls initialState = []"
    by (simp_all add: initialState_def trim_def)
  from missing_details_skip [of failingEnv ?a initialState 0 "''a''" "''token''"] n l
  have 1: "processSession failingEnv ?a (initialState, 0) =
       (initialState\<lparr>activityLogs := [NoDetailsFor ''a'', ProcessingSession ''a'']\<rparr>, 0)"
    by simp
  from missing_details_skip [of fetchThrowsEnv ?b initialState 0 "''a''" "''token''"] f
  have 2: "getSessionDetails fetchThrowsEnv ''a'' = Some (fallbackEntry ''a'')"
    by simp
  from missing_details_skip [of fetchThrowsEnv ?b initialState 0 "''a''" "''token''"] 2 t
  have 3: "renameCalls (fst (processSession fetchThrowsEnv ?b (initialState, 0)))
           = [(''a'', ''GET /api/fallback'')]"
    by simp
  from missing_details_skip [of failingEnv ?a initialState 0 "''a''" "''token''"] n t
  have 4: "(''a'', ''GET /foo/bar'') \<notin> set (renameCalls (checkAndRenameReplayTabs failingEnv initialState))"
    by auto
  show ?thesis using n 1 f 2 3 4 by simp
qed

section \<open>The name generator\<close>

text \<open>
  C5, as stated, with the log switched off and a custom naming function that raises an
  Error: the generator returns the default name, and no fallback notice is in the log.
\<close>

theorem custom_function_silent_counterexample:
  "trim (namingFunction silentState) \<noteq> []
   \<and> userFunction throwingEnv (namingFunction silentState) ''GET'' ''/x'' [] = Throws (ErrorObject (Some ''boom''))
   \<and> map_option fst (generateTabName throwingEnv ''GET'' ''/x'' None silentState) = Some ''GET /x''
   \<and> map_option (\<lambda>r. UsingDefaultFunction \<in> set (activityLogs (snd r)))
         (generateTabName throwingEnv ''GET'' ''/x'' None silentState) = Some False"
  by code_simp

text \<open>
  C5, amended.  When evaluating the custom source raises and the catch block can build its
  message (in \<^verbatim>\<open>packages/frontend/src/index.ts\<close> for every raised value that is not an Error
  and for an Error whose message converts to a string; in the second source file for every
  raised value other than null and undefined whose message can be read and converted), the
  generator returns the default name and calls \<^verbatim>\<open>addLog\<close> once with the error and once with
  the fallback notice: with the log switched on these two entries are put in front of the
  log, with the log switched off the state is unchanged.  In those cases and whenever the
  custom function returns, the generator returns, and a name it returns is never empty.
\<close>

theorem custom_function_fallback:
  "(trim (namingFunction s) \<noteq> []
      \<and> userFunction e (namingFunction s) m p (case h of None \<Rightarrow> [] | Some x \<Rightarrow> x) = Throws err
    \<longrightarrow> (errorMessage err = Some msg \<longrightarrow>
           generateTabName e m p h s =
             Some (defaultTabName m p,
                   addLog UsingDefaultFunction (addLog (CustomFunctionError msg) s)))
        \<and> (errorMessage_part000 err = Some msg \<longrightarrow>
           generateTabName_part000 e m p h s =
             Some (defaultTabName m p,
                   addLog UsingDefaultFunction (addLog (CustomFunctionError msg) s))))
   \<and> (logsEnabled s \<longrightarrow>
        activityLogs (addLog UsingDefaultFunction (addLog (CustomFunctionError msg) s)) =
          take 50 (UsingDefaultFunction # CustomFunctionError msg # activityLogs s))
   \<and> (\<not> logsEnabled s \<longrightarrow>
        addLog UsingDefaultFunction (addLog (CustomFunctionError msg) s) = s)
   \<and> errorMessage Nullish = Some ''Unknown error''
   \<and> errorMessage (OtherValue v) = Some ''Unknown error''
   \<and> errorMessage (ErrorObject (Some msg)) = Some msg
   \<and> errorMessage_part000 (ErrorObject (Some msg)) = Some msg
   \<and> errorMessage_part000 (OtherValue (Some msg)) = Some msg
   \<and> (generateTabName e m p h s = Some (nm, s') \<longrightarrow> nm \<noteq> [])
   \<and> (generateTabName_part000 e m p h s = Some (nm, s') \<longrightarrow> nm \<noteq> [])
   \<and> ((\<forall>x. trim (namingFunction s) \<noteq> []
             \<and> userFunction e (namingFunction s) m p (case h of None \<Rightarrow> [] | Some x \<Rightarrow> x) = Throws x
           \<longrightarrow> errorMessage x \<noteq> None)
      \<longrightarrow> generateTabName e m p h s \<noteq> None)
   \<and> ((\<forall>x. trim (namingFunction s) \<noteq> []
             \<and> userFunction e (namingFunction s) m p (case h of None \<Rightarrow> [] | Some x \<Rightarrow> x) = Throws x
           \<longrightarrow> errorMessage_part000 x \<noteq> None)
      \<longrightarrow> generateTabName_part000 e m p h s \<noteq> None)"
proof -
  let ?out = "userFunction e (namingFunction s) m p (case h of None \<Rightarrow> [] | Some x \<Rightarrow> x)"
  have a: "generateTabName e m p h s =
             Some (defaultTabName m p,
                   addLog UsingDefaultFunction (addLog (CustomFunctionError msg) s))"
    if "trim (namingFunction s) \<noteq> []" "?out = Throws err" "errorMessage err = Some msg"
    using that by (simp add: generateTabName_def Let_def)
  have b: "generateTabName_part000 e m p h s =
             Some (defaultTabName m p,
                   addLog UsingDefaultFunction (addLog (CustomFunctionError msg) s))"
    if "trim (namingFunction s) \<noteq> []" "?out = Throws err" "errorMessage_part000 err = Some msg"
    using that by (simp add: generateTabName_part000_def Let_def)
  have c: "logsEnabled s \<longrightarrow>
        activityLogs (addLog UsingDefaultFunction (addLog (CustomFunctionError msg) s)) =
          take 50 (UsingDefaultFunction # CustomFunctionError msg # activityLogs s)"
    by (simp add: addLog_twice)
  have d: "\<not> logsEnabled s \<longrightarrow>
        addLog UsingDefaultFunction (addLog (CustomFunctionError msg) s) = s"
    by (simp add: addLog_disabled)
  have f: "generateTabName e m p h s \<noteq> None"
    if "\<forall>x. trim (namingFunction s) \<noteq> [] \<and> ?out = Throws x \<longrightarrow> errorMessage x \<noteq> None"
    using that
    by (auto simp add: generateTabName_def Let_def split: outcome.splits option.splits)
  have g: "generateTabName_part000 e m p h s \<noteq> None"
    if "\<forall>x. trim (namingFunction s) \<noteq> [] \<and> ?out = Throws x \<longrightarrow> errorMessage_part000 x \<noteq> None"
    using that
    by (auto simp add: generateTabName_part000_def Let_def split: outcome.splits option.splits)
  have n: "generateTabName e m p h s = Some (nm, s') \<longrightarrow> nm \<noteq> []"
    "generateTabName_part000 e m p h s = Some (nm, s') \<longrightarrow> nm \<noteq> []"
    using generateTabName_SomeD(5) [of e m p h s nm s']
      generateTabName_part000_SomeD [of e m p h s nm s']
    by blast+
  have k: "errorMessage Nullish = Some ''Unknown error''"
    "errorMessage (OtherValue v) = Some ''Unknown error''"
    "errorMessage (ErrorObject (Some msg)) = Some msg"
    "errorMessage_part000 (ErrorObject (Some msg)) = Some msg"
    "errorMessage_part000 (OtherValue (Some msg)) = Some msg"
    by simp_all
  show ?thesis
    apply (intro conjI impI)
    subgoal using a by blast
    subgoal using b by blast
    subgoal using c by blast
    subgoal using d by blast
    subgoal by (rule k(1))
    subgoal by (rule k(2))
    subgoal by (rule k(3))
    subgoal by (rule k(4))
    subgoal by (rule k(5))
    subgoal using n(1) by blast
    subgoal using n(2) by blast
    subgoal using f by blast
    subgoal using g by blast
    done
qed

theorem custom_function_fallback_witness:
  "trim (namingFunction customState) \<noteq> []
   \<and> userFunction throwingEnv (namingFunction customState) ''GET'' ''/x'' [] = Throws (ErrorObject (Some ''boom''))
   \<and> generateTabName throwingEnv ''GET'' ''/x'' None customState =
       Some (''GET /x'', customState\<lparr>activityLogs := [UsingDefaultFunction, CustomFunctionError ''boom'']\<rparr>)
   \<and> generateTabName_part000 throwingEnv ''GET'' ''/x'' None customState =
       Some (''GET /x'', customState\<lparr>activityLogs := [UsingDefaultFunction, CustomFunctionError ''boom'']\<rparr>)
   \<and> generateTabName throwingEnv ''GET'' ''/x'' None silentState = Some (''GET /x'', silentState)
   \<and> generateTabName nullThrowingEnv ''GET'' ''/x'' None customState =
       Some (''GET /x'', customState\<lparr>activityLogs := [UsingDefaultFunction, CustomFunctionError ''Unknown error'']\<rparr>)"
proof -
  let ?boom = "ErrorObject (Some ''boom'')"
  have t: "trim (namingFunction customState) \<noteq> []" "trim (namingFunction silentState) \<noteq> []"
    by code_simp+
  have u: "userFunction throwingEnv (namingFunction customState) ''GET'' ''/x''
             (case None of None \<Rightarrow> [] | Some x \<Rightarrow> x) = Throws ?boom"
    "userFunction throwingEnv (namingFunction silentState) ''GET'' ''/x''
             (case None of None \<Rightarrow> [] | Some x \<Rightarrow> x) = Throws ?boom"
    "userFunction nullThrowingEnv (namingFunction customState) ''GET'' ''/x''
             (case None of None \<Rightarrow> [] | Some x \<Rightarrow> x) = Throws Nullish"
    by (simp_all add: throwingEnv_def nullThrowingEnv_def)
  have m: "errorMessage ?boom = Some ''boom''" "errorMessage_part000 ?boom = Some ''boom''"
    "errorMessage Nullish = Some ''Unknown error''"
    by simp_all
  have l: "logsEnabled customState" "activityLogs customState = []" "\<not> logsEnabled silentState"
    by (simp_all add: customState_def silentState_def initialState_def)
  have d: "defaultTabName ''GET'' ''/x'' = ''GET /x''" by code_simp
  have on: "addLog UsingDefaultFunction (addLog (CustomFunctionError msg) customState)
      = customState\<lparr>activityLogs := [UsingDefaultFunction, CustomFunctionError msg]\<rparr>" for msg
    by (simp add: addLog_def customState_def initialState_def)
  note c = custom_function_fallback [of customState throwingEnv "''GET''" "''/x''" None ?boom "''boom''"]
  note q = custom_function_fallback [of silentState throwingEnv "''GET''" "''/x''" None ?boom "''boom''"]
  note z = custom_function_fallback [of customState nullThrowingEnv "''GET''" "''/x''" None Nullish
      "''Unknown error''"]
  from c t(1) u(1) m(1) have "generateTabName throwingEnv ''GET'' ''/x'' None customState =
      Some (defaultTabName ''GET'' ''/x'',
            addLog UsingDefaultFunction (addLog (CustomFunctionError ''boom'') customState))"
    by blast
  then have 1: "generateTabName throwingEnv ''GET'' ''/x'' None customState =
       Some (''GET /x'', customState\<lparr>activityLogs := [UsingDefaultFunction, CustomFunctionError ''boom'']\<rparr>)"
    by (simp only: d on)
  from c t(1) u(1) m(2) have "generateTabName_part000 throwingEnv ''GET'' ''/x'' None customState =
      Some (defaultTabName ''GET'' ''/x'',
            addLog UsingDefaultFunction (addLog (CustomFunctionError ''boom'') customState))"
    by blast
  then have 2: "generateTabName_part000 throwingEnv ''GET'' ''/x'' None customState =
       Some (''GET /x'', customState\<lparr>activityLogs := [UsingDefaultFunction, CustomFunctionError ''boom'']\<rparr>)"
    by (simp only: d on)
  from q t(2) u(2) m(1) have "generateTabName throwingEnv ''GET'' ''/x'' None silentState =
      Some (defaultTabName ''GET'' ''/x'',
            addLog UsingDefaultFunction (addLog (CustomFunctionError ''boom'') silentState))"
    by blast
  moreover from q l(3)
  have "addLog UsingDefaultFunction (addLog (CustomFunctionError ''boom'') silentState) = silentState"
    by blast
  ultimately have 3: "generateTabName throwingEnv ''GET'' ''/x'' None silentState = Some (''GET /x'', silentState)"
    by (simp only: d)
  from z t(1) u(3) m(3) have "generateTabName nullThrowingEnv ''GET'' ''/x'' None customState =
      Some (defaultTabName ''GET'' ''/x'',
            addLog UsingDefaultFunction (addLog (CustomFunctionError ''Unknown error'') customState))"
    by blast
  then have 4: "generateTabName nullThrowingEnv ''GET'' ''/x'' None customState =
       Some (''GET /x'', customState\<lparr>activityLogs := [UsingDefaultFunction, CustomFunctionError ''Unknown error'']\<rparr>)"
    by (simp only: d on)
  have u': "userFunction throwingEnv (namingFunction customState) ''GET'' ''/x'' [] = Throws ?boom"
    by (simp add: throwingEnv_def)
  show ?thesis using t(1) u' 1 2 3 4 by blast
qed

text \<open>
  The cases left out above.  The catch block of the second source file reads
  \<^verbatim>\<open>error.message\<close> of whatever was raised: for a custom function that raises null the read
  raises a TypeError.  In both files the message is put into a template literal: for an
  Error whose message is a Symbol the conversion raises a TypeError.  In both cases the
  generator raises instead of returning the default name; the loop body catches it, logs
  the error and goes on without a rename.
\<close>

lemma generateTabName_part000_raises:
  "generateTabName_part000 nullThrowingEnv ''GET'' ''/x'' None customState = None"
  by code_simp

lemma generateTabName_raises:
  "generateTabName symbolThrowingEnv ''GET'' ''/x'' None customState = None
   \<and> generateTabName_part000 symbolThrowingEnv ''GET'' ''/x'' None customState = None
   \<and> renameCalls (checkAndRenameReplayTabs symbolThrowingEnv customState) = []
   \<and> SessionError ''a'' ''TypeError'' \<in> set (activityLogs (checkAndRenameReplayTabs symbolThrowingEnv customState))"
  by code_simp

end
